theory Spec2Isabelle
  imports Main
begin

section \<open>JavaScript values\<close>

text \<open>
  The values that reach the library are modelled as finite trees, so every value of the
  model is non-cyclic.  A number is NaN, an infinity or an integer below \<open>10^21\<close> in
  magnitude, which the host prints in plain decimal (the two zeros are one value: no code
  below tells them apart).  A string is a list of characters and its
  length is their number.  A function is known by its identity only.

  An object carries
  \<^item> \<open>ref\<close>: its identity, which is all that \<open>===\<close> compares;
  \<^item> \<open>kind\<close>: what the host made it (an exotic array, a regular expression with its
    source and flags, an error object, or an ordinary object);
  \<^item> \<open>proto_ctor\<close>: what its prototype chain answers for \<open>.constructor\<close>;
  \<^item> \<open>valueOf_fn\<close>, \<open>toString_fn\<close>: \<open>None\<close> when \<open>.valueOf\<close> (\<open>.toString\<close>) is
    \<open>Object.prototype\<close>'s own, otherwise the value a call of the override returns;
  \<^item> \<open>elems\<close>: the elements of an array, which is dense (arrays with holes are outside the
    model);
  \<^item> \<open>own\<close>: its own named properties in the host's key order, each with its value and
    its enumerable flag.
  Symbols, getters with effects, proxies, \<open>toJSON\<close> methods and boxed primitives are
  outside the model.
\<close>

datatype number = NaN | PosInfinity | NegInfinity | Finite int

datatype kind = Ordinary | Array | RegExp string string | Error

datatype jsval =
    Undefined
  | Null
  | Bool bool
  | Num number
  | Str string
  | Func nat
  | Obj (ref: nat) (kind: kind) (proto_ctor: jsval)
        (valueOf_fn: "jsval option") (toString_fn: "jsval option")
        (elems: "jsval list") (own: "(string \<times> jsval \<times> bool) list")

text \<open>The identities of the host's constructors that the code names.\<close>

definition Object_ctor :: jsval where "Object_ctor = Func 0"
definition Array_ctor :: jsval where "Array_ctor = Func 1"
definition RegExp_ctor :: jsval where "RegExp_ctor = Func 2"
definition Error_ctor :: jsval where "Error_ctor = Func 3"

definition dquote :: char where "dquote = CHR 0x22"
definition backslash :: char where "backslash = CHR 0x5C"
definition newline :: char where "newline = CHR 0x0A"

definition digit_char :: "nat \<Rightarrow> char" where
  "digit_char d =
     (if d = 0 then CHR ''0'' else if d = 1 then CHR ''1'' else if d = 2 then CHR ''2''
      else if d = 3 then CHR ''3'' else if d = 4 then CHR ''4'' else if d = 5 then CHR ''5''
      else if d = 6 then CHR ''6'' else if d = 7 then CHR ''7'' else if d = 8 then CHR ''8''
      else CHR ''9'')"

text \<open>\<open>String(n)\<close> for a natural number: its decimal digits.\<close>

fun string_of_nat :: "nat \<Rightarrow> string" where
  "string_of_nat n =
     (if n < 10 then [digit_char n]
      else string_of_nat (n div 10) @ [digit_char (n mod 10)])"

declare string_of_nat.simps [simp del]

text \<open>\<open>a === b\<close>: NaN differs from itself, objects and functions are compared by identity.\<close>

fun strict_eq :: "jsval \<Rightarrow> jsval \<Rightarrow> bool" where
  "strict_eq Undefined Undefined = True"
| "strict_eq Null Null = True"
| "strict_eq (Bool x) (Bool y) = (x = y)"
| "strict_eq (Num x) (Num y) = (x \<noteq> NaN \<and> x = y)"
| "strict_eq (Str x) (Str y) = (x = y)"
| "strict_eq (Func f) (Func g) = (f = g)"
| "strict_eq (Obj r _ _ _ _ _ _) (Obj r' _ _ _ _ _ _) = (r = r')"
| "strict_eq _ _ = False"

text \<open>\<open>!!v\<close>.\<close>

fun truthy :: "jsval \<Rightarrow> bool" where
  "truthy Undefined = False"
| "truthy Null = False"
| "truthy (Bool b) = b"
| "truthy (Num n) = (n \<noteq> NaN \<and> n \<noteq> Finite 0)"
| "truthy (Str s) = (s \<noteq> [])"
| "truthy (Func _) = True"
| "truthy (Obj _ _ _ _ _ _ _) = True"

fun typeof :: "jsval \<Rightarrow> string" where
  "typeof Undefined = ''undefined''"
| "typeof Null = ''object''"
| "typeof (Bool _) = ''boolean''"
| "typeof (Num _) = ''number''"
| "typeof (Str _) = ''string''"
| "typeof (Func _) = ''function''"
| "typeof (Obj _ _ _ _ _ _ _) = ''object''"

fun isArray :: "jsval \<Rightarrow> bool" where
  "isArray (Obj _ k _ _ _ _ _) = (k = Array)"
| "isArray _ = False"

text \<open>
  Property access.  An array owns its index keys and \<open>length\<close> before its named
  properties; what an object does not own is looked up in its prototype chain, which
  answers \<open>constructor\<close>, a regular expression's \<open>source\<close> and \<open>flags\<close>, and an
  error's default empty \<open>message\<close>.
\<close>

definition index_props :: "jsval list \<Rightarrow> (string \<times> jsval) list" where
  "index_props es = map (\<lambda>(i, x). (string_of_nat i, x)) (enumerate 0 es)"

definition named_props :: "(string \<times> jsval \<times> bool) list \<Rightarrow> (string \<times> jsval) list" where
  "named_props ps = map (\<lambda>(k, v, e). (k, v)) ps"

fun own_property :: "jsval \<Rightarrow> string \<Rightarrow> jsval option" where
  "own_property (Obj r k pc vo ts es ps) key =
     (if k = Array then
        (if key = ''length'' then Some (Num (Finite (int (length es))))
         else (case map_of (index_props es) key of
                 Some x \<Rightarrow> Some x
               | None \<Rightarrow> map_of (named_props ps) key))
      else map_of (named_props ps) key)"
| "own_property _ key = None"

fun inherited_property :: "jsval \<Rightarrow> string \<Rightarrow> jsval" where
  "inherited_property (Obj r k pc vo ts es ps) key =
     (if key = ''constructor'' then pc
      else (case k of
              RegExp src fl \<Rightarrow>
                (if key = ''source'' then Str src
                 else if key = ''flags'' then Str fl else Undefined)
            | Error \<Rightarrow> (if key = ''message'' then Str [] else Undefined)
            | _ \<Rightarrow> Undefined))"
| "inherited_property _ key = Undefined"

definition get :: "jsval \<Rightarrow> string \<Rightarrow> jsval" where
  "get v key =
     (case own_property v key of Some x \<Rightarrow> x | None \<Rightarrow> inherited_property v key)"

definition hasOwnProperty :: "jsval \<Rightarrow> string \<Rightarrow> bool" where
  "hasOwnProperty v key = (own_property v key \<noteq> None)"

text \<open>\<open>Object.keys(v)\<close>: the own enumerable keys, index keys first.\<close>

fun Object_keys :: "jsval \<Rightarrow> string list" where
  "Object_keys (Obj r k pc vo ts es ps) =
     (if k = Array then map fst (index_props es) else [])
     @ map fst (filter (\<lambda>(key, v, e). e) ps)"
| "Object_keys _ = []"

fun builtin_tag :: "jsval \<Rightarrow> string" where
  "builtin_tag (Obj r k pc vo ts es ps) =
     (case k of Array \<Rightarrow> ''Array'' | Error \<Rightarrow> ''Error'' | RegExp _ _ \<Rightarrow> ''RegExp''
      | Ordinary \<Rightarrow> ''Object'')"
| "builtin_tag Undefined = ''Undefined''"
| "builtin_tag Null = ''Null''"
| "builtin_tag (Bool _) = ''Boolean''"
| "builtin_tag (Num _) = ''Number''"
| "builtin_tag (Str _) = ''String''"
| "builtin_tag (Func _) = ''Function''"

text \<open>\<open>Object.prototype.toString.call(v)\<close>.\<close>

definition OBJ_TO_STRING :: "jsval \<Rightarrow> string" where
  "OBJ_TO_STRING v = ''[object '' @ builtin_tag v @ '']''"

text \<open>\<open>v.valueOf()\<close> and \<open>v.toString()\<close> on an object.\<close>

definition call_valueOf :: "jsval \<Rightarrow> jsval" where
  "call_valueOf v = (case valueOf_fn v of Some x \<Rightarrow> x | None \<Rightarrow> v)"

definition call_toString :: "jsval \<Rightarrow> jsval" where
  "call_toString v =
     (case toString_fn v of Some x \<Rightarrow> x | None \<Rightarrow> Str (OBJ_TO_STRING v))"

lemma size_index_props:
  assumes "map_of (index_props es) key = Some x"
  shows "size x \<le> size_list size es"
proof -
  from assms have "(key, x) \<in> set (index_props es)" by (rule map_of_SomeD)
  then have "x \<in> set es" by (auto simp: index_props_def in_set_enumerate_eq)
  then show ?thesis by (rule size_list_estimation') simp
qed

lemma size_named_props:
  assumes "map_of (named_props ps) key = Some x"
  shows "size x \<le> size_list (size_prod (\<lambda>x. 0) (size_prod size (\<lambda>x. 0))) ps"
proof -
  from assms have "(key, x) \<in> set (named_props ps)" by (rule map_of_SomeD)
  then obtain e where "(key, x, e) \<in> set ps" by (auto simp: named_props_def)
  then show ?thesis by (rule size_list_estimation') simp
qed

lemma size_get: "size (get (Obj r k pc vo ts es ps) key) < size (Obj r k pc vo ts es ps)"
proof (cases "own_property (Obj r k pc vo ts es ps) key")
  case None
  then show ?thesis by (auto simp: get_def split: kind.splits)
next
  case (Some x)
  then have "size x \<le> size_list size es
      \<or> size x \<le> size_list (size_prod (\<lambda>x. 0) (size_prod size (\<lambda>x. 0))) ps"
    by (auto split: if_splits option.splits dest: size_index_props size_named_props)
  with Some show ?thesis by (auto simp: get_def)
qed

section \<open>The deep-equality comparator (fast-deep-equal.js)\<close>

text \<open>
  \<open>deepEqual\<close> line by line.  The two loops run from the last index to the first; each
  only leaves early with \<open>false\<close>, so each is the conjunction over the reversed index
  (key) list.
\<close>

function deepEqual :: "jsval \<Rightarrow> jsval \<Rightarrow> bool" where
  "deepEqual a b =
     (if strict_eq a b then True
      else if truthy a \<and> truthy b \<and> typeof a = ''object'' \<and> typeof b = ''object'' then
        (if \<not> strict_eq (get a ''constructor'') (get b ''constructor'') then False
         else if isArray a then
           (if \<not> strict_eq (get a ''length'') (get b ''length'') then False
            else list_all (\<lambda>i. deepEqual (get a (string_of_nat i)) (get b (string_of_nat i)))
                   (rev [0..<length (elems a)]))
         else if strict_eq (get a ''constructor'') RegExp_ctor then
           strict_eq (get a ''source'') (get b ''source'')
           \<and> strict_eq (get a ''flags'') (get b ''flags'')
         else if valueOf_fn a \<noteq> None then strict_eq (call_valueOf a) (call_valueOf b)
         else if toString_fn a \<noteq> None then strict_eq (call_toString a) (call_toString b)
         else
           (let keys = Object_keys a in
            if length keys \<noteq> length (Object_keys b) then False
            else if \<not> list_all (hasOwnProperty b) (rev keys) then False
            else list_all (\<lambda>key. deepEqual (get a key) (get b key)) (rev keys)))
      else \<not> strict_eq a a \<and> \<not> strict_eq b b)"
  by pat_completeness auto
termination
proof (relation "measure (\<lambda>(a, b). size a)")
  show "wf (measure (\<lambda>(a, b). size a))" by simp
next
  fix a b :: jsval and x :: nat
  assume "truthy a \<and> truthy b \<and> typeof a = ''object'' \<and> typeof b = ''object''"
  then obtain r k pc vo ts es ps where "a = Obj r k pc vo ts es ps"
    by (cases a) auto
  then show "((get a (string_of_nat x), get b (string_of_nat x)), a, b)
      \<in> measure (\<lambda>(a, b). size a)"
    using size_get by simp
next
  fix a b :: jsval and key :: string
  assume "truthy a \<and> truthy b \<and> typeof a = ''object'' \<and> typeof b = ''object''"
  then obtain r k pc vo ts es ps where "a = Obj r k pc vo ts es ps"
    by (cases a) auto
  then show "((get a key, get b key), a, b) \<in> measure (\<lambda>(a, b). size a)"
    using size_get by simp
qed

declare deepEqual.simps [simp del]

text \<open>
  Objects that are plain instances of their constructor: the constructor is a function and
  fixes whether its instances are arrays and whether they override \<open>valueOf\<close> and
  \<open>toString\<close> (the table \<open>cls\<close>), every own named property is enumerable, and no key
  is listed twice.  The same holds for every value inside.
\<close>

record class_shape =
  array_class :: bool
  overrides_valueOf :: bool
  overrides_toString :: bool

fun conforms :: "(nat \<Rightarrow> class_shape) \<Rightarrow> jsval \<Rightarrow> bool" where
  "conforms cls (Obj r k pc vo ts es ps) =
     ((case get (Obj r k pc vo ts es ps) ''constructor'' of
         Func c \<Rightarrow>
           array_class (cls c) = (k = Array)
           \<and> overrides_valueOf (cls c) = (vo \<noteq> None)
           \<and> overrides_toString (cls c) = (ts \<noteq> None)
           \<and> (if k = Array \<or> Func c = RegExp_ctor \<or> vo \<noteq> None \<or> ts \<noteq> None then True
               else list_all (\<lambda>(key, v, e). e) ps)
       | _ \<Rightarrow> False)
      \<and> distinct (map fst ps)
      \<and> conforms cls pc
      \<and> list_all (conforms cls) es
      \<and> list_all (\<lambda>(key, v, e). conforms cls v) ps)"
| "conforms cls _ = True"

section \<open>Value serialization (toJSON in index.ts)\<close>

text \<open>
  \<open>JSON.stringify(thing, replacer, '  ')\<close> as ECMAScript defines it, on the values of the
  model: \<open>SerializeJSONProperty\<close> first passes the value through the replacer, then
  renders it; an array renders its elements (\<open>null\<close> for what has no rendering), any
  other object its own enumerable properties (dropping what has no rendering).  The
  result \<open>None\<close> is JavaScript's \<open>undefined\<close>.
\<close>

definition hex_char :: "nat \<Rightarrow> char" where
  "hex_char d =
     (if d < 10 then digit_char d
      else if d = 10 then CHR ''a'' else if d = 11 then CHR ''b'' else if d = 12 then CHR ''c''
      else if d = 13 then CHR ''d'' else if d = 14 then CHR ''e'' else CHR ''f'')"

definition quote_char :: "char \<Rightarrow> string" where
  "quote_char c =
     (if c = dquote then [backslash, dquote]
      else if c = backslash then [backslash, backslash]
      else if c = CHR 0x08 then [backslash, CHR ''b'']
      else if c = CHR 0x0C then [backslash, CHR ''f'']
      else if c = CHR 0x0A then [backslash, CHR ''n'']
      else if c = CHR 0x0D then [backslash, CHR ''r'']
      else if c = CHR 0x09 then [backslash, CHR ''t'']
      else if of_char c < (32 :: nat) then
        [backslash, CHR ''u'', CHR ''0'', CHR ''0'',
         hex_char (of_char c div 16), hex_char (of_char c mod 16)]
      else [c])"

definition QuoteJSONString :: "string \<Rightarrow> string" where
  "QuoteJSONString s = [dquote] @ concat (map quote_char s) @ [dquote]"

fun Number_toString :: "number \<Rightarrow> string" where
  "Number_toString NaN = ''NaN''"
| "Number_toString PosInfinity = ''Infinity''"
| "Number_toString NegInfinity = ''-Infinity''"
| "Number_toString (Finite i) =
     (if i < 0 then ''-'' @ string_of_nat (nat (- i)) else string_of_nat (nat i))"

fun join :: "string \<Rightarrow> string list \<Rightarrow> string" where
  "join sep [] = []"
| "join sep [x] = x"
| "join sep (x # y # ys) = x @ sep @ join sep (y # ys)"

definition sentinel :: string where "sentinel = ''_tz_undefined_tz_''"

text \<open>The replacer of \<open>toJSON\<close>: \<open>(_k, v) => (v === undefined) ? '_tz_undefined_tz_' : v\<close>.\<close>

definition replacer :: "jsval \<Rightarrow> jsval" where
  "replacer v = (if strict_eq v Undefined then Str sentinel else v)"

definition gap :: string where "gap = ''  ''"

function SerializeJSONProperty :: "string \<Rightarrow> jsval \<Rightarrow> string option" where
  "SerializeJSONProperty indent v0 =
     (case replacer v0 of
        Undefined \<Rightarrow> None
      | Null \<Rightarrow> Some ''null''
      | Bool b \<Rightarrow> Some (if b then ''true'' else ''false'')
      | Num n \<Rightarrow> Some (case n of Finite i \<Rightarrow> Number_toString n | _ \<Rightarrow> ''null'')
      | Str s \<Rightarrow> Some (QuoteJSONString s)
      | Func f \<Rightarrow> None
      | Obj r k pc vo ts es ps \<Rightarrow>
          (let v = Obj r k pc vo ts es ps; stepback = indent; indent' = indent @ gap in
           if isArray v then
             (let partial =
                    map (\<lambda>i. case SerializeJSONProperty indent' (get v (string_of_nat i)) of
                                None \<Rightarrow> ''null''
                              | Some strP \<Rightarrow> strP)
                        [0..<length es]
              in if partial = [] then Some ''[]''
                 else Some (''['' @ [newline] @ indent'
                            @ join ('','' @ [newline] @ indent') partial
                            @ [newline] @ stepback @ '']''))
           else
             (let partial =
                    concat (map (\<lambda>key. case SerializeJSONProperty indent' (get v key) of
                                          None \<Rightarrow> []
                                        | Some strP \<Rightarrow> [QuoteJSONString key @ '': '' @ strP])
                                (Object_keys v))
              in if partial = [] then Some ''{}''
                 else Some (''{'' @ [newline] @ indent'
                            @ join ('','' @ [newline] @ indent') partial
                            @ [newline] @ stepback @ ''}''))))"
  by pat_completeness auto
termination
proof (relation "measure (\<lambda>(indent, v). size v)")
  show "wf (measure (\<lambda>(indent, v). size v))" by simp
next
  fix indent :: string and v0 r k pc vo ts es ps v stepback indent' i
  assume "replacer v0 = Obj r k pc vo ts es ps" "v = Obj r k pc vo ts es ps"
  then have "v0 = v" by (auto simp: replacer_def split: if_splits)
  with \<open>v = Obj r k pc vo ts es ps\<close>
  show "((indent', get v (string_of_nat i)), indent, v0) \<in> measure (\<lambda>(indent, v). size v)"
    using size_get by simp
next
  fix indent :: string and v0 r k pc vo ts es ps v stepback indent' key
  assume "replacer v0 = Obj r k pc vo ts es ps" "v = Obj r k pc vo ts es ps"
  then have "v0 = v" by (auto simp: replacer_def split: if_splits)
  with \<open>v = Obj r k pc vo ts es ps\<close>
  show "((indent', get v key), indent, v0) \<in> measure (\<lambda>(indent, v). size v)"
    using size_get by simp
qed

declare SerializeJSONProperty.simps [simp del]

definition JSON_stringify :: "jsval \<Rightarrow> string option" where
  "JSON_stringify thing = SerializeJSONProperty [] thing"

definition quoted_sentinel :: string where
  "quoted_sentinel = [dquote] @ sentinel @ [dquote]"

text \<open>
  \<open>json.replace(/"_tz_undefined_tz_"/g, 'undefined')\<close>: the matches are taken from left
  to right and do not overlap.
\<close>

function replace_sentinel :: "string \<Rightarrow> string" where
  "replace_sentinel s =
     (if s = [] then []
      else if take (length quoted_sentinel) s = quoted_sentinel
        then ''undefined'' @ replace_sentinel (drop (length quoted_sentinel) s)
      else hd s # replace_sentinel (tl s))"
  by pat_completeness auto
termination
  by (relation "measure length") (auto simp: quoted_sentinel_def)

declare replace_sentinel.simps [simp del]

text \<open>\<open>JSON.stringify(...) || 'undefined'\<close>, then the replacement.\<close>

definition toJSON :: "jsval \<Rightarrow> string" where
  "toJSON thing =
     (let json = (case JSON_stringify thing of
                    None \<Rightarrow> ''undefined''
                  | Some j \<Rightarrow> if j = [] then ''undefined'' else j)
      in replace_sentinel json)"

section \<open>Tests and the test runner (index.ts)\<close>

text \<open>
  A thrown \<open>Error\<close> is a value of \<open>error\<close>, one constructor per \<open>throw\<close> of the source
  (\<open>TypeError\<close> is the host's, for \<open>.split\<close> on a stack that is no string).  Every
  operation returns its outcome together with the state it leaves behind, since a
  JavaScript exception keeps what was written before it.
\<close>

datatype error =
    CannotAddAfterCompleted
  | MsgRequired
  | ThrowsNotImplemented string
  | AssertionAfterFinished string
  | MoreTestsThanPlanned string
  | EndedBeforePlanned int int
  | OnFinishExpectsFunction
  | TypeError

datatype 'a outcome = Returned 'a | Thrown error

text \<open>
  What the host answers at the place of an assertion call: \<open>at_line\<close> is the result of
  \<open>findAtLineFromError(atErr)\<close> and \<open>stack\<close> is \<open>atErr.stack\<close> for the fresh
  \<open>new Error(description)\<close> (empty when the host has none).
\<close>

record callsite =
  at_line :: string
  stack :: string

text \<open>
  A test function is the sequence of calls it makes on its \<open>Test\<close>, up to the first
  call that throws (a function that catches what an assertion throws, or that registers
  tests, is outside the model).  Three arguments are results of the host: \<open>Equal\<close> and \<open>NotEqual\<close> carry the value of
  \<open>actual == expected\<close>, \<open>IfError\<close> carries \<open>String(err)\<close>, and \<open>Throws\<close> carries what
  calling \<open>fn\<close> threw (\<open>None\<close> when it returned) and the value of
  \<open>expected.test(caught.message)\<close>.
\<close>

datatype assertion =
    DeepEqual jsval jsval
  | NotDeepEqual jsval jsval
  | Equal bool jsval jsval
  | NotEqual bool jsval jsval
  | Fail
  | Ok jsval
  | IfError jsval string
  | Throws "jsval option" jsval bool

datatype action =
    Comment string
  | Plan int
  | Assert assertion "string option" callsite

record tally =
  pass :: nat
  fail :: nat

text \<open>
  The fields of \<open>Test\<close> (\<open>planned\<close>, \<open>actual\<close>, \<open>result\<close> are \<open>_planned\<close>, \<open>_actual\<close>,
  \<open>_result\<close>; \<open>done'\<close> is \<open>done\<close>).  The reference \<open>runner\<close> is the
  \<open>TestRunner option\<close> every operation on a test takes and returns.
\<close>

record Test =
  name :: string
  planned :: "int option"
  actual :: "int option"
  fn :: "action list"
  result :: tally
  done' :: bool
  strict :: bool

text \<open>
  The fields of \<open>TestRunner\<close>.  \<open>report\<close> is the injected line sink, as the list of
  the lines written to it so far; \<open>id_counter\<close> is \<open>_id\<close>; \<open>onFinishCallback\<close> tells
  whether a callback is registered and \<open>finished\<close> holds the totals it was called with.
  The host's \<open>setTimeout\<close> and \<open>process.on('exit')\<close> are outside the model: \<open>scheduled\<close>
  records that the deferred \<open>run()\<close> was requested.
\<close>

record TestRunner =
  report :: "string list"
  tests :: "Test list"
  onlyTests :: "Test list"
  scheduled :: bool
  id_counter :: nat
  completed :: bool
  rethrowExceptions :: bool
  strict :: bool
  onFinishCallback :: bool
  finished :: "(nat \<times> nat \<times> nat) option"

definition new_TestRunner :: TestRunner where
  "new_TestRunner =
     \<lparr> report = [], tests = [], onlyTests = [], scheduled = False, id_counter = 0,
       completed = False, rethrowExceptions = True, strict = False,
       onFinishCallback = False, finished = None \<rparr>"

definition nextId :: "TestRunner \<Rightarrow> string \<times> TestRunner" where
  "nextId r = (string_of_nat (id_counter r + 1), r\<lparr>id_counter := id_counter r + 1\<rparr>)"

text \<open>\<open>this.report(line)\<close>.\<close>

definition emit :: "string \<Rightarrow> TestRunner \<Rightarrow> TestRunner" where
  "emit line r = r\<lparr>report := report r @ [line]\<rparr>"

definition emit_all :: "string list \<Rightarrow> TestRunner \<Rightarrow> TestRunner" where
  "emit_all ls r = foldl (\<lambda>r l. emit l r) r ls"

definition new_Test :: "string \<Rightarrow> action list \<Rightarrow> TestRunner option \<Rightarrow> Test" where
  "new_Test nm f runner =
     \<lparr> name = nm, planned = None, actual = None, fn = f,
       result = \<lparr> pass = 0, fail = 0 \<rparr>, done' = False,
       strict = (case runner of None \<Rightarrow> False | Some r \<Rightarrow> TestRunner.strict r) \<rparr>"

definition add :: "string \<Rightarrow> action list \<Rightarrow> bool \<Rightarrow> TestRunner \<Rightarrow> unit outcome \<times> TestRunner" where
  "add nm f only r =
     (if completed r then (Thrown CannotAddAfterCompleted, r)
      else
        (let t = new_Test nm f (Some r);
             r1 = (if only then r\<lparr>onlyTests := onlyTests r @ [t]\<rparr>
                   else r\<lparr>tests := tests r @ [t]\<rparr>)
         in (Returned (), if \<not> scheduled r1 then r1\<lparr>scheduled := True\<rparr> else r1)))"

definition onFinish :: "jsval \<Rightarrow> TestRunner \<Rightarrow> unit outcome \<times> TestRunner" where
  "onFinish callback r =
     (if typeof callback = ''function'' then (Returned (), r\<lparr>onFinishCallback := True\<rparr>)
      else (Thrown OnFinishExpectsFunction, r))"

text \<open>\<open>!msg\<close> is \<open>\<not> msg_given msg\<close>, and \<open>msg || dflt\<close> is \<open>msg_or msg dflt\<close>.\<close>

definition msg_given :: "string option \<Rightarrow> bool" where
  "msg_given msg = (case msg of None \<Rightarrow> False | Some m \<Rightarrow> m \<noteq> [])"

definition msg_or :: "string option \<Rightarrow> string \<Rightarrow> string" where
  "msg_or msg dflt = (case msg of None \<Rightarrow> dflt | Some m \<Rightarrow> if m = [] then dflt else m)"

text \<open>\<open>s.split('\n')\<close> and \<open>s.replace(/\n/g, '\n      ')\<close>.\<close>

fun split_lines :: "string \<Rightarrow> string list" where
  "split_lines [] = [[]]"
| "split_lines (c # cs) =
     (if c = newline then [] # split_lines cs
      else (case split_lines cs of [] \<Rightarrow> [[c]] | l # ls \<Rightarrow> (c # l) # ls))"

definition indent_newlines :: "string \<Rightarrow> string" where
  "indent_newlines s =
     concat (map (\<lambda>c. if c = newline then newline # ''      '' else [c]) s)"

text \<open>\<open>this._actual || 0\<close>.\<close>

definition actual_count :: "Test \<Rightarrow> int" where
  "actual_count t = (case actual t of None \<Rightarrow> 0 | Some a \<Rightarrow> a)"

text \<open>
  \<open>Test._assert\<close>, in two parts: \<open>report_failure\<close> is the rest of the function after the
  early return of a passing assertion (from \<open>const atErr = new Error(description)\<close> to the
  end), run on the test and the runner as the first part leaves them.
\<close>

definition report_failure ::
  "jsval \<Rightarrow> jsval \<Rightarrow> string \<Rightarrow> callsite \<Rightarrow> Test \<Rightarrow> TestRunner
     \<Rightarrow> unit outcome \<times> Test \<times> TestRunner option" where
  "report_failure actual0 expected operator cs t1 r2 =
     (let is_err = (truthy actual0 \<and> OBJ_TO_STRING actual0 = ''[object Error]'');
          err_stack = (if is_err then get actual0 ''stack'' else Str (stack cs));
          act = (if is_err then get actual0 ''message'' else actual0);
          t2 = t1\<lparr>result := (result t1)\<lparr>fail := fail (result t1) + 1\<rparr>\<rparr>;
          r3 = emit ''  ---'' r2;
          r4 = emit (''    operator: '' @ operator) r3;
          ex = toJSON expected;
          ac = toJSON act;
          r5 = (if max (length ex) (length ac) > 65
                then emit (''    actual:   |-'' @ [newline] @ ''      '' @ indent_newlines ac)
                       (emit (''    expected: |-'' @ [newline] @ ''      ''
                              @ indent_newlines ex) r4)
                else emit (''    actual:   '' @ ac) (emit (''    expected: '' @ ex) r4));
          r6 = (if at_line cs \<noteq> [] then emit (''    at:       '' @ at_line cs) r5 else r5);
          r7 = emit ''    stack:    |-'' r6
      in (case (if truthy err_stack then err_stack else Str []) of
            Str s \<Rightarrow>
              (Returned (), t2,
               Some (emit ''  ...''
                      (emit_all (map (\<lambda>line. ''      '' @ line) (split_lines s)) r7)))
          | _ \<Rightarrow> (Thrown TypeError, t2, Some r7)))"

definition Test_assert ::
  "bool \<Rightarrow> jsval \<Rightarrow> jsval \<Rightarrow> string \<Rightarrow> string \<Rightarrow> callsite \<Rightarrow> Test \<Rightarrow> TestRunner option
     \<Rightarrow> unit outcome \<times> Test \<times> TestRunner option" where
  "Test_assert ok actual0 expected description operator cs t ro =
     (if done' t then (Thrown (AssertionAfterFinished (name t)), t, ro)
      else
        (let t1 = (case planned t of
                     None \<Rightarrow> t
                   | Some p \<Rightarrow> t\<lparr>actual := Some (actual_count t + 1)\<rparr>)
         in if (case planned t1 of None \<Rightarrow> False | Some p \<Rightarrow> actual_count t1 > p)
            then (Thrown (MoreTestsThanPlanned (name t)), t1, ro)
            else
              (case ro of
                 None \<Rightarrow> (Returned (), t1, None)
               | Some r \<Rightarrow>
                   (let prefix = (if ok then ''ok'' else ''not ok'');
                        (id, r1) = nextId r;
                        r2 = emit (prefix @ '' '' @ id @ '' '' @ description) r1
                    in if ok
                       then (Returned (),
                             t1\<lparr>result := (result t1)\<lparr>pass := pass (result t1) + 1\<rparr>\<rparr>,
                             Some r2)
                       else report_failure actual0 expected operator cs t1 r2))))"

definition Test_plan :: "int \<Rightarrow> Test \<Rightarrow> Test" where
  "Test_plan n t = t\<lparr>planned := Some n\<rparr>"

definition Test_comment :: "string \<Rightarrow> TestRunner option \<Rightarrow> TestRunner option" where
  "Test_comment msg ro = map_option (emit (''# '' @ msg)) ro"

text \<open>\<open>this.strict && !msg\<close>.\<close>

definition msg_required :: "Test \<Rightarrow> string option \<Rightarrow> bool" where
  "msg_required t msg = (Test.strict t \<and> \<not> msg_given msg)"

definition Test_deepEqual ::
  "jsval \<Rightarrow> jsval \<Rightarrow> string option \<Rightarrow> callsite \<Rightarrow> Test \<Rightarrow> TestRunner option
     \<Rightarrow> unit outcome \<times> Test \<times> TestRunner option" where
  "Test_deepEqual act exp msg cs t ro =
     (if msg_required t msg then (Thrown MsgRequired, t, ro)
      else Test_assert (deepEqual act exp) act exp (msg_or msg ''should be equivalent'')
             ''deepEqual'' cs t ro)"

definition Test_notDeepEqual ::
  "jsval \<Rightarrow> jsval \<Rightarrow> string option \<Rightarrow> callsite \<Rightarrow> Test \<Rightarrow> TestRunner option
     \<Rightarrow> unit outcome \<times> Test \<times> TestRunner option" where
  "Test_notDeepEqual act exp msg cs t ro =
     (if msg_required t msg then (Thrown MsgRequired, t, ro)
      else Test_assert (\<not> deepEqual act exp) act exp (msg_or msg ''should not be equivalent'')
             ''notDeepEqual'' cs t ro)"

definition Test_equal ::
  "bool \<Rightarrow> jsval \<Rightarrow> jsval \<Rightarrow> string option \<Rightarrow> callsite \<Rightarrow> Test \<Rightarrow> TestRunner option
     \<Rightarrow> unit outcome \<times> Test \<times> TestRunner option" where
  "Test_equal loose act exp msg cs t ro =
     (if msg_required t msg then (Thrown MsgRequired, t, ro)
      else Test_assert loose act exp (msg_or msg ''should be equal'') ''equal'' cs t ro)"

definition Test_notEqual ::
  "bool \<Rightarrow> jsval \<Rightarrow> jsval \<Rightarrow> string option \<Rightarrow> callsite \<Rightarrow> Test \<Rightarrow> TestRunner option
     \<Rightarrow> unit outcome \<times> Test \<times> TestRunner option" where
  "Test_notEqual loose act exp msg cs t ro =
     (if msg_required t msg then (Thrown MsgRequired, t, ro)
      else Test_assert (\<not> loose) act exp (msg_or msg ''should not be equal'') ''notEqual''
             cs t ro)"

definition Test_fail ::
  "string option \<Rightarrow> callsite \<Rightarrow> Test \<Rightarrow> TestRunner option
     \<Rightarrow> unit outcome \<times> Test \<times> TestRunner option" where
  "Test_fail msg cs t ro =
     (if msg_required t msg then (Thrown MsgRequired, t, ro)
      else Test_assert False (Str ''fail called'') (Str ''fail not called'')
             (msg_or msg ''fail called'') ''fail'' cs t ro)"

definition Test_ok ::
  "jsval \<Rightarrow> string option \<Rightarrow> callsite \<Rightarrow> Test \<Rightarrow> TestRunner option
     \<Rightarrow> unit outcome \<times> Test \<times> TestRunner option" where
  "Test_ok act msg cs t ro =
     (if msg_required t msg then (Thrown MsgRequired, t, ro)
      else Test_assert (truthy act) act (Str ''truthy value'') (msg_or msg ''should be truthy'')
             ''ok'' cs t ro)"

definition Test_ifError ::
  "jsval \<Rightarrow> string \<Rightarrow> string option \<Rightarrow> callsite \<Rightarrow> Test \<Rightarrow> TestRunner option
     \<Rightarrow> unit outcome \<times> Test \<times> TestRunner option" where
  "Test_ifError err err_text msg cs t ro =
     (if msg_required t msg then (Thrown MsgRequired, t, ro)
      else Test_assert (\<not> truthy err) err (Str ''no error'') (msg_or msg err_text)
             ''ifError'' cs t ro)"

text \<open>\<open>expected instanceof RegExp\<close>.\<close>

definition instanceof_RegExp :: "jsval \<Rightarrow> bool" where
  "instanceof_RegExp v =
     (case v of
        Obj r k pc vo ts es ps \<Rightarrow> (case k of RegExp src fl \<Rightarrow> True | _ \<Rightarrow> False)
      | _ \<Rightarrow> False)"

text \<open>
  \<open>Test.throws\<close>.  \<open>caught\<close> is \<open>null\<close> when \<open>fn\<close> returned and the thrown value
  otherwise.
\<close>

definition Test_throws ::
  "jsval option \<Rightarrow> bool \<Rightarrow> jsval \<Rightarrow> string option \<Rightarrow> callsite \<Rightarrow> Test \<Rightarrow> TestRunner option
     \<Rightarrow> unit outcome \<times> Test \<times> TestRunner option" where
  "Test_throws fn_result matches expected0 message0 cs t ro =
     (let message = (case expected0 of Str s \<Rightarrow> Some s | _ \<Rightarrow> message0);
          expected = (case expected0 of Str s \<Rightarrow> Undefined | _ \<Rightarrow> expected0)
      in if msg_required t message then (Thrown MsgRequired, t, ro)
         else
           (let caught = (case fn_result of None \<Rightarrow> Null | Some e \<Rightarrow> e)
            in if instanceof_RegExp expected
               then Test_assert (truthy caught \<and> matches) caught expected
                      (msg_or message ''show throw'') ''throws'' cs t ro
               else if truthy expected
               then (Thrown (ThrowsNotImplemented (typeof expected)), t, ro)
               else Test_assert (truthy caught) caught expected
                      (msg_or message ''show throw'') ''throws'' cs t ro))"

fun Test_assertion ::
  "assertion \<Rightarrow> string option \<Rightarrow> callsite \<Rightarrow> Test \<Rightarrow> TestRunner option
     \<Rightarrow> unit outcome \<times> Test \<times> TestRunner option" where
  "Test_assertion (DeepEqual act exp) msg cs t ro = Test_deepEqual act exp msg cs t ro"
| "Test_assertion (NotDeepEqual act exp) msg cs t ro = Test_notDeepEqual act exp msg cs t ro"
| "Test_assertion (Equal loose act exp) msg cs t ro = Test_equal loose act exp msg cs t ro"
| "Test_assertion (NotEqual loose act exp) msg cs t ro = Test_notEqual loose act exp msg cs t ro"
| "Test_assertion Fail msg cs t ro = Test_fail msg cs t ro"
| "Test_assertion (Ok act) msg cs t ro = Test_ok act msg cs t ro"
| "Test_assertion (IfError err err_text) msg cs t ro = Test_ifError err err_text msg cs t ro"
| "Test_assertion (Throws fn_result expected matches) msg cs t ro =
     Test_throws fn_result matches expected msg cs t ro"

fun exec_action ::
  "action \<Rightarrow> Test \<Rightarrow> TestRunner option \<Rightarrow> unit outcome \<times> Test \<times> TestRunner option" where
  "exec_action (Comment msg) t ro = (Returned (), t, Test_comment msg ro)"
| "exec_action (Plan n) t ro = (Returned (), Test_plan n t, ro)"
| "exec_action (Assert a msg cs) t ro = Test_assertion a msg cs t ro"

text \<open>The calls of a test function in order; a throw ends it.\<close>

fun exec_fn ::
  "action list \<Rightarrow> Test \<Rightarrow> TestRunner option \<Rightarrow> unit outcome \<times> Test \<times> TestRunner option" where
  "exec_fn [] t ro = (Returned (), t, ro)"
| "exec_fn (a # as) t ro =
     (case exec_action a t ro of
        (Thrown e, t1, ro1) \<Rightarrow> (Thrown e, t1, ro1)
      | (Returned u, t1, ro1) \<Rightarrow> exec_fn as t1 ro1)"

text \<open>\<open>Test.run\<close>.\<close>

definition Test_run ::
  "Test \<Rightarrow> TestRunner option \<Rightarrow> tally outcome \<times> Test \<times> TestRunner option" where
  "Test_run t ro =
     (case exec_fn (fn t) t (map_option (emit (''# '' @ name t)) ro) of
        (Thrown e, t1, ro1) \<Rightarrow> (Thrown e, t1, ro1)
      | (Returned u, t1, ro1) \<Rightarrow>
          (let t2 = t1\<lparr>done' := True\<rparr>
           in (case planned t2 of
                 None \<Rightarrow> (Returned (result t2), t2, ro1)
               | Some p \<Rightarrow>
                   if p > actual_count t2
                   then (Thrown (EndedBeforePlanned p (actual_count t2)), t2, ro1)
                   else (Returned (result t2), t2, ro1))))"

text \<open>
  The loop of \<open>TestRunner.run\<close> over the chosen registry, with the three counters; it
  returns the tests as the loop left them.
\<close>

fun run_tests ::
  "Test list \<Rightarrow> TestRunner \<Rightarrow> nat \<times> nat \<times> nat
     \<Rightarrow> (nat \<times> nat \<times> nat) outcome \<times> Test list \<times> TestRunner" where
  "run_tests [] r acc = (Returned acc, [], r)"
| "run_tests (t # ts) r (tot, success, failed) =
     (case Test_run t (Some r) of
        (Thrown e, t1, ro1) \<Rightarrow> (Thrown e, t1 # ts, (case ro1 of None \<Rightarrow> r | Some r1 \<Rightarrow> r1))
      | (Returned res, t1, ro1) \<Rightarrow>
          (case run_tests ts (case ro1 of None \<Rightarrow> r | Some r1 \<Rightarrow> r1)
                  (tot + (fail res + pass res), success + pass res, failed + fail res) of
             (out, ts1, r2) \<Rightarrow> (out, t1 # ts1, r2)))"

text \<open>\<open>TestRunner.run\<close>.\<close>

definition TestRunner_run :: "TestRunner \<Rightarrow> unit outcome \<times> TestRunner" where
  "TestRunner_run r =
     (let only = (length (onlyTests r) > 0);
          ts = (if only then onlyTests r else tests r)
      in (case run_tests ts (emit ''TAP version 13'' r) (0, 0, 0) of
            (out, ts1, r1) \<Rightarrow>
              (let r2 = (if only then r1\<lparr>onlyTests := ts1\<rparr> else r1\<lparr>tests := ts1\<rparr>)
               in (case out of
                     Thrown e \<Rightarrow> (Thrown e, r2)
                   | Returned (tot, success, failed) \<Rightarrow>
                       (let r3 = r2\<lparr>completed := True\<rparr>;
                            r4 = emit (''# pass  '' @ string_of_nat success)
                                   (emit (''# tests '' @ string_of_nat tot)
                                     (emit (''1..'' @ string_of_nat tot) (emit [] r3)));
                            r5 = (if failed \<noteq> 0
                                  then emit (''# fail  '' @ string_of_nat failed) r4
                                  else emit ''# ok'' (emit [] r4))
                        in (Returned (),
                            if onFinishCallback r5
                            then r5\<lparr>finished := Some (tot, success, failed)\<rparr>
                            else r5))))))"


section \<open>Auxiliary notions for the statements\<close>

text \<open>The number of assertion calls a test function makes.\<close>

fun is_Assert :: "action \<Rightarrow> bool" where
  "is_Assert (Assert a msg cs) = True"
| "is_Assert _ = False"

definition assertion_calls :: "action list \<Rightarrow> nat" where
  "assertion_calls as = length (filter is_Assert as)"

fun is_Plan :: "action \<Rightarrow> bool" where
  "is_Plan (Plan n) = True"
| "is_Plan _ = False"

text \<open>
  What \<open>_assert\<close> serializes as the actual value (the message, for an error object), and
  the two lines it writes for the serialized expected and actual values.
\<close>

definition shown_actual :: "jsval \<Rightarrow> jsval" where
  "shown_actual a =
     (if truthy a \<and> OBJ_TO_STRING a = ''[object Error]'' then get a ''message'' else a)"

definition value_lines :: "string \<Rightarrow> string \<Rightarrow> string list" where
  "value_lines ex ac =
     (if 65 < max (length ex) (length ac)
      then [''    expected: |-'' @ [newline] @ ''      '' @ indent_newlines ex,
            ''    actual:   |-'' @ [newline] @ ''      '' @ indent_newlines ac]
      else [''    expected: '' @ ex, ''    actual:   '' @ ac])"

text \<open>
  The stack that \<open>_assert\<close> prints (\<open>err.stack || ''\<close>), and the lines of the
  diagnostic block up to the stack header.
\<close>

definition shown_stack :: "jsval \<Rightarrow> callsite \<Rightarrow> jsval" where
  "shown_stack a cs =
     (let st = (if truthy a \<and> OBJ_TO_STRING a = ''[object Error]'' then get a ''stack''
                else Str (stack cs))
      in if truthy st then st else Str [])"

definition failure_head :: "jsval \<Rightarrow> jsval \<Rightarrow> string \<Rightarrow> callsite \<Rightarrow> string list" where
  "failure_head a e op cs =
     [''  ---'', ''    operator: '' @ op]
     @ value_lines (toJSON e) (toJSON (shown_actual a))
     @ (if at_line cs \<noteq> [] then [''    at:       '' @ at_line cs] else [])
     @ [''    stack:    |-'']"

text \<open>A result with the registry \<open>tests\<close> of its runner replaced.\<close>

definition retest ::
  "Test list \<Rightarrow> 'a \<times> Test \<times> TestRunner option \<Rightarrow> 'a \<times> Test \<times> TestRunner option" where
  "retest x res = (case res of (out, t', ro') \<Rightarrow> (out, t', map_option (\<lambda>r. r\<lparr>tests := x\<rparr>) ro'))"

section \<open>Sample values\<close>

text \<open>
  \<open>{x: [1, NaN], y: /a/gi}\<close> built twice (the second time with \<open>y\<close> first), and the
  class table of \<open>Object\<close>, \<open>Array\<close> and \<open>RegExp\<close>.
\<close>

definition sample_classes :: "nat \<Rightarrow> class_shape" where
  "sample_classes c =
     \<lparr> array_class = (c = 1), overrides_valueOf = False,
       overrides_toString = (c = 1 \<or> c = 2) \<rparr>"

definition sample_a :: jsval where
  "sample_a =
     Obj 10 Ordinary Object_ctor None None []
       [(''x'', Obj 11 Array Array_ctor None (Some (Str ''1,NaN''))
                  [Num (Finite 1), Num NaN] [], True),
        (''y'', Obj 12 (RegExp ''a'' ''gi'') RegExp_ctor None (Some (Str ''/a/gi'')) []
                  [(''lastIndex'', Num (Finite 0), False)], True)]"

definition sample_b :: jsval where
  "sample_b =
     Obj 20 Ordinary Object_ctor None None []
       [(''y'', Obj 22 (RegExp ''a'' ''gi'') RegExp_ctor None (Some (Str ''/a/gi'')) []
                  [(''lastIndex'', Num (Finite 0), False)], True),
        (''x'', Obj 21 Array Array_ctor None (Some (Str ''1,NaN''))
                  [Num (Finite 1), Num NaN] [], True)]"

text \<open>A call site, an error object \<open>new Error('x')\<close>, and two 40-character strings.\<close>

definition site0 :: callsite where
  "site0 = \<lparr> at_line = ''f (/a/b.js:1:2)'',
             stack = ''Error: x'' @ [newline] @ ''    at f (/a/b.js:1:2)'' \<rparr>"

definition sample_error :: jsval where
  "sample_error =
     Obj 30 Error Error_ctor None (Some (Str ''Error: x'')) []
       [(''stack'', Str ''Error: x'', False), (''message'', Str ''x'', False)]"

definition forty_a :: string where
  "forty_a = ''aaaaaaaaaaaaaaaaaaaaaaaaaaaaaaaaaaaaaaaa''"

definition forty_b :: string where
  "forty_b = ''bbbbbbbbbbbbbbbbbbbbbbbbbbbbbbbbbbbbbbbb''"

text \<open>
  A test after \<open>plan(2)\<close> and two passing \<open>ok(true)\<close>, with its runner; a runner
  with one exclusive test between two normal tests that would fail.
\<close>

definition planned_test :: Test where
  "planned_test =
     \<lparr> name = ''t'', planned = Some 2, actual = Some 2, fn = [],
       result = \<lparr> pass = 2, fail = 0 \<rparr>, done' = False, strict = False \<rparr>"

definition planned_runner :: TestRunner where
  "planned_runner =
     new_TestRunner \<lparr> report := [''ok 1 should be truthy'', ''ok 2 should be truthy''],
                      id_counter := 2 \<rparr>"

definition exclusive_runner :: TestRunner where
  "exclusive_runner =
     snd (add ''b'' [Assert Fail None site0] False
       (snd (add ''only'' [Assert (Ok (Bool True)) None site0] True
         (snd (add ''a'' [Assert Fail None site0] False new_TestRunner)))))"

text \<open>A test that plans two assertions and makes one.\<close>

definition underplanned_test :: Test where
  "underplanned_test =
     new_Test ''t'' [Plan 2, Assert (Ok (Bool True)) None site0] (Some new_TestRunner)"

section \<open>The comparator: reflexivity and symmetry\<close>

lemma strict_eq_sym: "strict_eq a b = strict_eq b a"
  by (cases a; cases b) auto

lemma conforms_parts:
  assumes "conforms cls (Obj r k pc vo ts es ps)"
  shows "conforms cls pc" and "\<And>x. x \<in> set es \<Longrightarrow> conforms cls x"
    and "\<And>key x e. (key, x, e) \<in> set ps \<Longrightarrow> conforms cls x"
  using assms by (auto simp: list_all_iff)

lemma map_of_index_props: "map_of (index_props es) key = Some x \<Longrightarrow> x \<in> set es"
proof -
  assume "map_of (index_props es) key = Some x"
  then have "(key, x) \<in> set (index_props es)" by (rule map_of_SomeD)
  then show "x \<in> set es" by (auto simp: index_props_def in_set_enumerate_eq)
qed

lemma map_of_named_props: "map_of (named_props ps) key = Some x \<Longrightarrow> \<exists>e. (key, x, e) \<in> set ps"
proof -
  assume "map_of (named_props ps) key = Some x"
  then have "(key, x) \<in> set (named_props ps)" by (rule map_of_SomeD)
  then show ?thesis by (auto simp: named_props_def)
qed

lemma own_property_cases:
  assumes "own_property (Obj r k pc vo ts es ps) key = Some x"
  shows "x = Num (Finite (int (length es))) \<or> x \<in> set es \<or> (\<exists>e. (key, x, e) \<in> set ps)"
proof (cases "k = Array")
  case False
  with assms have "map_of (named_props ps) key = Some x" by simp
  then show ?thesis by (blast dest: map_of_named_props)
next
  case arr: True
  show ?thesis
  proof (cases "key = ''length''")
    case True
    with arr assms show ?thesis by simp
  next
    case nl: False
    show ?thesis
    proof (cases "map_of (index_props es) key")
      case None
      with arr nl assms have "map_of (named_props ps) key = Some x" by simp
      then show ?thesis by (blast dest: map_of_named_props)
    next
      case (Some y)
      with arr nl assms have "y = x" by simp
      with Some show ?thesis by (blast dest: map_of_index_props)
    qed
  qed
qed

lemma inherited_property_cases:
  "inherited_property (Obj r k pc vo ts es ps) key = pc
   \<or> (\<exists>s. inherited_property (Obj r k pc vo ts es ps) key = Str s)
   \<or> inherited_property (Obj r k pc vo ts es ps) key = Undefined"
  by (simp split: kind.splits)

lemma conforms_get: "conforms cls a \<Longrightarrow> conforms cls (get a key)"
proof (cases a)
  case (Obj r k pc vo ts es ps)
  assume c: "conforms cls a"
  note parts = conforms_parts [OF c [unfolded Obj]]
  show ?thesis
  proof (cases "own_property a key")
    case None
    then have g: "get a key = inherited_property (Obj r k pc vo ts es ps) key"
      by (simp add: get_def Obj)
    from inherited_property_cases [of r k pc vo ts es ps key]
    consider "inherited_property (Obj r k pc vo ts es ps) key = pc"
      | s where "inherited_property (Obj r k pc vo ts es ps) key = Str s"
      | "inherited_property (Obj r k pc vo ts es ps) key = Undefined"
      by blast
    then show ?thesis
      by cases (simp_all only: g parts(1) conforms.simps)
  next
    case (Some x)
    then have "own_property (Obj r k pc vo ts es ps) key = Some x" by (simp add: Obj)
    from own_property_cases [OF this] parts(2,3)
    have "conforms cls x" by (elim disjE exE) simp_all
    with Some show ?thesis by (simp add: get_def)
  qed
qed (simp_all add: get_def)

lemma deepEqual_refl: "deepEqual a a"
proof (cases "strict_eq a a")
  case True
  then show ?thesis by (subst deepEqual.simps) simp
next
  case False
  then have "\<not> truthy a" by (cases a) auto
  with False show ?thesis by (subst deepEqual.simps) simp
qed



lemma object_cases:
  assumes "truthy v" "typeof v = ''object''"
  obtains r k pc vo ts es ps where "v = Obj r k pc vo ts es ps"
  using assms by (cases v) simp_all

lemma conforms_shape:
  assumes "conforms cls v" "truthy v" "typeof v = ''object''"
  obtains c where "get v ''constructor'' = Func c"
    and "array_class (cls c) = isArray v"
    and "overrides_valueOf (cls c) = (valueOf_fn v \<noteq> None)"
    and "overrides_toString (cls c) = (toString_fn v \<noteq> None)"
    and "isArray v \<or> Func c = RegExp_ctor \<or> valueOf_fn v \<noteq> None \<or> toString_fn v \<noteq> None
         \<or> list_all (\<lambda>(key, x, e). e) (own v)"
proof -
  from assms(2,3) obtain r k pc vo ts es ps where v: "v = Obj r k pc vo ts es ps"
    by (rule object_cases)
  from assms(1) have "case get v ''constructor'' of
         Func c \<Rightarrow>
           array_class (cls c) = (k = Array)
           \<and> overrides_valueOf (cls c) = (vo \<noteq> None)
           \<and> overrides_toString (cls c) = (ts \<noteq> None)
           \<and> (if k = Array \<or> Func c = RegExp_ctor \<or> vo \<noteq> None \<or> ts \<noteq> None then True
               else list_all (\<lambda>(key, v, e). e) ps)
       | _ \<Rightarrow> False"
    unfolding v by simp
  then show thesis
    using that by (cases "get v ''constructor''") (auto simp: v split: if_splits)
qed

lemma conforms_keys:
  assumes "conforms cls v" "truthy v" "typeof v = ''object''" "\<not> isArray v"
    and "list_all (\<lambda>(key, x, e). e) (own v)"
  shows "distinct (Object_keys v)"
    and "hasOwnProperty v key = (key \<in> set (Object_keys v))"
proof -
  from assms(2,3) obtain r k pc vo ts es ps where v: "v = Obj r k pc vo ts es ps"
    by (rule object_cases)
  from assms(4) have k: "k \<noteq> Array" by (simp add: v)
  from assms(5) have en: "\<forall>p\<in>set ps. case p of (key, x, e) \<Rightarrow> e"
    unfolding v by (simp add: list_all_iff)
  from assms(1) have d: "distinct (map fst ps)"
    unfolding v by simp
  from en have "filter (\<lambda>(key, x, e). e) ps = ps" by (simp add: filter_id_conv)
  with k have keys: "Object_keys v = map fst ps" by (simp add: v)
  with d show "distinct (Object_keys v)" by simp
  have "fst ` set (named_props ps) = fst ` set ps"
    by (force simp: named_props_def)
  then have "(map_of (named_props ps) key \<noteq> None) = (key \<in> fst ` set ps)"
    by (simp add: map_of_eq_None_iff)
  with k keys show "hasOwnProperty v key = (key \<in> set (Object_keys v))"
    by (simp add: hasOwnProperty_def v)
qed

lemma array_length:
  assumes "isArray v"
  shows "get v ''length'' = Num (Finite (int (length (elems v))))"
  using assms by (cases v) (simp_all add: get_def)

lemma same_keys:
  assumes "distinct xs" "distinct ys"
  shows "(length xs = length ys \<and> set xs \<subseteq> set ys) = (set xs = set ys)"
proof
  assume h: "length xs = length ys \<and> set xs \<subseteq> set ys"
  with assms have "card (set xs) = card (set ys)" by (simp add: distinct_card)
  with h show "set xs = set ys" by (simp add: card_subset_eq)
next
  assume "set xs = set ys"
  with assms show "length xs = length ys \<and> set xs \<subseteq> set ys"
    by (metis distinct_card order_refl)
qed

text \<open>The branches of \<open>deepEqual\<close>, one equation each.\<close>

lemma deepEqual_identical: "strict_eq a b \<Longrightarrow> deepEqual a b"
  by (subst deepEqual.simps) simp

lemma deepEqual_primitive:
  assumes "\<not> strict_eq a b"
    and "\<not> (truthy a \<and> truthy b \<and> typeof a = ''object'' \<and> typeof b = ''object'')"
  shows "deepEqual a b = (\<not> strict_eq a a \<and> \<not> strict_eq b b)"
  by (subst deepEqual.simps) (simp only: assms if_False if_True simp_thms)

lemma deepEqual_objects:
  assumes "\<not> strict_eq a b"
    and "truthy a \<and> truthy b \<and> typeof a = ''object'' \<and> typeof b = ''object''"
  shows "deepEqual a b =
    (if \<not> strict_eq (get a ''constructor'') (get b ''constructor'') then False
     else if isArray a then
       (if \<not> strict_eq (get a ''length'') (get b ''length'') then False
        else list_all (\<lambda>i. deepEqual (get a (string_of_nat i)) (get b (string_of_nat i)))
               (rev [0..<length (elems a)]))
     else if strict_eq (get a ''constructor'') RegExp_ctor then
       strict_eq (get a ''source'') (get b ''source'')
       \<and> strict_eq (get a ''flags'') (get b ''flags'')
     else if valueOf_fn a \<noteq> None then strict_eq (call_valueOf a) (call_valueOf b)
     else if toString_fn a \<noteq> None then strict_eq (call_toString a) (call_toString b)
     else
       (let keys = Object_keys a in
        if length keys \<noteq> length (Object_keys b) then False
        else if \<not> list_all (hasOwnProperty b) (rev keys) then False
        else list_all (\<lambda>key. deepEqual (get a key) (get b key)) (rev keys)))"
  by (subst deepEqual.simps) (simp only: assms if_False if_True simp_thms)

lemma deepEqual_array:
  assumes "\<not> strict_eq a b"
    and "truthy a \<and> truthy b \<and> typeof a = ''object'' \<and> typeof b = ''object''"
    and "strict_eq (get a ''constructor'') (get b ''constructor'')" and "isArray a"
  shows "deepEqual a b =
    (strict_eq (get a ''length'') (get b ''length'')
     \<and> list_all (\<lambda>i. deepEqual (get a (string_of_nat i)) (get b (string_of_nat i)))
          (rev [0..<length (elems a)]))"
  unfolding deepEqual_objects [OF assms(1,2)] using assms(3,4) by simp

lemma deepEqual_regexp:
  assumes "\<not> strict_eq a b"
    and "truthy a \<and> truthy b \<and> typeof a = ''object'' \<and> typeof b = ''object''"
    and "strict_eq (get a ''constructor'') (get b ''constructor'')" and "\<not> isArray a"
    and "strict_eq (get a ''constructor'') RegExp_ctor"
  shows "deepEqual a b =
    (strict_eq (get a ''source'') (get b ''source'')
     \<and> strict_eq (get a ''flags'') (get b ''flags''))"
  unfolding deepEqual_objects [OF assms(1,2)] using assms(3-) by simp

lemma deepEqual_valueOf:
  assumes "\<not> strict_eq a b"
    and "truthy a \<and> truthy b \<and> typeof a = ''object'' \<and> typeof b = ''object''"
    and "strict_eq (get a ''constructor'') (get b ''constructor'')" and "\<not> isArray a"
    and "\<not> strict_eq (get a ''constructor'') RegExp_ctor" and "valueOf_fn a \<noteq> None"
  shows "deepEqual a b = strict_eq (call_valueOf a) (call_valueOf b)"
  unfolding deepEqual_objects [OF assms(1,2)] using assms(3-) by simp

lemma deepEqual_toString:
  assumes "\<not> strict_eq a b"
    and "truthy a \<and> truthy b \<and> typeof a = ''object'' \<and> typeof b = ''object''"
    and "strict_eq (get a ''constructor'') (get b ''constructor'')" and "\<not> isArray a"
    and "\<not> strict_eq (get a ''constructor'') RegExp_ctor" and "valueOf_fn a = None"
    and "toString_fn a \<noteq> None"
  shows "deepEqual a b = strict_eq (call_toString a) (call_toString b)"
  unfolding deepEqual_objects [OF assms(1,2)] using assms(3-) by simp

lemma deepEqual_keys:
  assumes "\<not> strict_eq a b"
    and "truthy a \<and> truthy b \<and> typeof a = ''object'' \<and> typeof b = ''object''"
    and "strict_eq (get a ''constructor'') (get b ''constructor'')" and "\<not> isArray a"
    and "\<not> strict_eq (get a ''constructor'') RegExp_ctor" and "valueOf_fn a = None"
    and "toString_fn a = None"
  shows "deepEqual a b =
    (length (Object_keys a) = length (Object_keys b)
     \<and> (\<forall>key\<in>set (Object_keys a). hasOwnProperty b key)
     \<and> (\<forall>key\<in>set (Object_keys a). deepEqual (get a key) (get b key)))"
  unfolding deepEqual_objects [OF assms(1,2)] using assms(3-)
  by (simp add: Let_def list_all_iff)

lemma deepEqual_sym:
  "conforms cls a \<Longrightarrow> conforms cls b \<Longrightarrow> deepEqual a b = deepEqual b a"
proof (induction a b rule: deepEqual.induct)
  case (1 a b)
  note ca = "1.prems"(1) and cb = "1.prems"(2)
  show ?case
  proof (cases "strict_eq a b")
    case True
    then have "strict_eq b a" by (simp add: strict_eq_sym)
    with True show ?thesis by (simp add: deepEqual_identical)
  next
    case neq: False
    then have neq': "\<not> strict_eq b a" by (simp add: strict_eq_sym)
    show ?thesis
    proof (cases "truthy a \<and> truthy b \<and> typeof a = ''object'' \<and> typeof b = ''object''")
      case False
      then have "\<not> (truthy b \<and> truthy a \<and> typeof b = ''object'' \<and> typeof a = ''object'')"
        by blast
      from deepEqual_primitive [OF neq False] deepEqual_primitive [OF neq' this]
      show ?thesis by blast
    next
      case objs: True
      then have objs': "truthy b \<and> truthy a \<and> typeof b = ''object'' \<and> typeof a = ''object''"
        by blast
      from objs have ta: "truthy a" "typeof a = ''object''"
        and tb: "truthy b" "typeof b = ''object''"
        by simp_all
      from conforms_shape [OF ca ta] obtain c where a_ctor: "get a ''constructor'' = Func c"
        and a_arr: "array_class (cls c) = isArray a"
        and a_vo: "overrides_valueOf (cls c) = (valueOf_fn a \<noteq> None)"
        and a_ts: "overrides_toString (cls c) = (toString_fn a \<noteq> None)"
        and a_en: "isArray a \<or> Func c = RegExp_ctor \<or> valueOf_fn a \<noteq> None
          \<or> toString_fn a \<noteq> None \<or> list_all (\<lambda>(key, x, e). e) (own a)"
        by blast
      from conforms_shape [OF cb tb] obtain c' where b_ctor: "get b ''constructor'' = Func c'"
        and b_arr: "array_class (cls c') = isArray b"
        and b_vo: "overrides_valueOf (cls c') = (valueOf_fn b \<noteq> None)"
        and b_ts: "overrides_toString (cls c') = (toString_fn b \<noteq> None)"
        and b_en: "isArray b \<or> Func c' = RegExp_ctor \<or> valueOf_fn b \<noteq> None
          \<or> toString_fn b \<noteq> None \<or> list_all (\<lambda>(key, x, e). e) (own b)"
        by blast
      show ?thesis
      proof (cases "c = c'")
        case False
        with a_ctor b_ctor
        have "\<not> strict_eq (get a ''constructor'') (get b ''constructor'')"
          and "\<not> strict_eq (get b ''constructor'') (get a ''constructor'')"
          by simp_all
        with deepEqual_objects [OF neq objs] deepEqual_objects [OF neq' objs']
        show ?thesis by simp
      next
        case True
        with a_ctor b_ctor
        have ctor: "strict_eq (get a ''constructor'') (get b ''constructor'')"
          and ctor': "strict_eq (get b ''constructor'') (get a ''constructor'')"
          and ctor_eq: "get b ''constructor'' = get a ''constructor''"
          by simp_all
        from True a_arr b_arr have arr_eq: "isArray b = isArray a" by simp
        from True a_vo b_vo
        have vo_eq: "(valueOf_fn b \<noteq> None) = (valueOf_fn a \<noteq> None)" by simp
        from True a_ts b_ts
        have ts_eq: "(toString_fn b \<noteq> None) = (toString_fn a \<noteq> None)" by simp
        show ?thesis
        proof (cases "isArray a")
          case arr: True
          with arr_eq have arr': "isArray b" by simp
          have la: "get a ''length'' = Num (Finite (int (length (elems a))))"
            using arr by (rule array_length)
          have lb: "get b ''length'' = Num (Finite (int (length (elems b))))"
            using arr' by (rule array_length)
          note ab = deepEqual_array [OF neq objs ctor arr]
            and ba = deepEqual_array [OF neq' objs' ctor' arr']
          show ?thesis
          proof (cases "length (elems a) = length (elems b)")
            case False
            with la lb ab ba show ?thesis by simp
          next
            case len: True
            with la lb have sl: "strict_eq (get a ''length'') (get b ''length'')" by simp
            have step: "deepEqual (get a (string_of_nat i)) (get b (string_of_nat i))
                = deepEqual (get b (string_of_nat i)) (get a (string_of_nat i))"
              if "i < length (elems a)" for i
              using "1.IH"(1) [of i] neq objs ctor arr sl that
                conforms_get [OF ca] conforms_get [OF cb]
              by simp
            have "list_all (\<lambda>i. deepEqual (get a (string_of_nat i)) (get b (string_of_nat i)))
                    (rev [0..<length (elems a)])
                = list_all (\<lambda>i. deepEqual (get b (string_of_nat i)) (get a (string_of_nat i)))
                    (rev [0..<length (elems b)])"
              using step len by (simp add: list_all_iff)
            with la lb len ab ba show ?thesis by simp
          qed
        next
          case narr: False
          with arr_eq have narr': "\<not> isArray b" by simp
          show ?thesis
          proof (cases "strict_eq (get a ''constructor'') RegExp_ctor")
            case re: True
            with ctor_eq have re': "strict_eq (get b ''constructor'') RegExp_ctor" by simp
            have "strict_eq (get a ''source'') (get b ''source'')
                  = strict_eq (get b ''source'') (get a ''source'')"
              and "strict_eq (get a ''flags'') (get b ''flags'')
                  = strict_eq (get b ''flags'') (get a ''flags'')"
              by (rule strict_eq_sym)+
            with deepEqual_regexp [OF neq objs ctor narr re]
              deepEqual_regexp [OF neq' objs' ctor' narr' re']
            show ?thesis by simp
          next
            case nre: False
            with ctor_eq have nre': "\<not> strict_eq (get b ''constructor'') RegExp_ctor" by simp
            show ?thesis
            proof (cases "valueOf_fn a \<noteq> None")
              case vo: True
              with vo_eq have vo': "valueOf_fn b \<noteq> None" by simp
              have "strict_eq (call_valueOf a) (call_valueOf b)
                    = strict_eq (call_valueOf b) (call_valueOf a)"
                by (rule strict_eq_sym)
              with deepEqual_valueOf [OF neq objs ctor narr nre vo]
                deepEqual_valueOf [OF neq' objs' ctor' narr' nre' vo']
              show ?thesis by simp
            next
              case False
              then have nvo: "valueOf_fn a = None" by simp
              with vo_eq have nvo': "valueOf_fn b = None" by simp
              show ?thesis
              proof (cases "toString_fn a \<noteq> None")
                case ts: True
                with ts_eq have ts': "toString_fn b \<noteq> None" by simp
                have "strict_eq (call_toString a) (call_toString b)
                      = strict_eq (call_toString b) (call_toString a)"
                  by (rule strict_eq_sym)
                with deepEqual_toString [OF neq objs ctor narr nre nvo ts]
                  deepEqual_toString [OF neq' objs' ctor' narr' nre' nvo' ts']
                show ?thesis by simp
              next
                case False
                then have nts: "toString_fn a = None" by simp
                with ts_eq have nts': "toString_fn b = None" by simp
                from a_en narr nre nvo nts a_ctor
                have ena: "list_all (\<lambda>(key, x, e). e) (own a)" by (auto simp: RegExp_ctor_def)
                from b_en narr' nre' nvo' nts' b_ctor
                have enb: "list_all (\<lambda>(key, x, e). e) (own b)" by (auto simp: RegExp_ctor_def)
                note ka = conforms_keys [OF ca ta narr ena]
                  and kb = conforms_keys [OF cb tb narr' enb]
                have ab': "deepEqual a b =
                    (length (Object_keys a) = length (Object_keys b)
                     \<and> set (Object_keys a) \<subseteq> set (Object_keys b)
                     \<and> (\<forall>key\<in>set (Object_keys a). deepEqual (get a key) (get b key)))"
                  unfolding deepEqual_keys [OF neq objs ctor narr nre nvo nts]
                  using kb(2) by auto
                have ba': "deepEqual b a =
                    (length (Object_keys b) = length (Object_keys a)
                     \<and> set (Object_keys b) \<subseteq> set (Object_keys a)
                     \<and> (\<forall>key\<in>set (Object_keys b). deepEqual (get b key) (get a key)))"
                  unfolding deepEqual_keys [OF neq' objs' ctor' narr' nre' nvo' nts']
                  using ka(2) by auto
                show ?thesis
                proof (cases "set (Object_keys a) = set (Object_keys b)")
                  case False
                  with same_keys [OF ka(1) kb(1)] same_keys [OF kb(1) ka(1)] ab' ba'
                  show ?thesis by auto
                next
                  case same: True
                  with same_keys [OF ka(1) kb(1)]
                  have len: "length (Object_keys a) = length (Object_keys b)" by simp
                  have own: "list_all (hasOwnProperty b) (rev (Object_keys a))"
                    using same kb(2) by (simp add: list_all_iff)
                  have step: "deepEqual (get a key) (get b key) = deepEqual (get b key) (get a key)"
                    if "key \<in> set (Object_keys a)" for key
                    using "1.IH"(2) [of "Object_keys a" key] neq objs ctor narr nre nvo nts len own
                      that conforms_get [OF ca] conforms_get [OF cb]
                    by simp
                  with same len ab' ba' show ?thesis by auto
                qed
              qed
            qed
          qed
        qed
      qed
    qed
  qed
qed

text \<open>
  C4 (as amended).  \<open>deepEqual(a, a)\<close> is true for every value.  \<open>deepEqual(a, b)\<close> and
  \<open>deepEqual(b, a)\<close> are the same boolean whenever every object inside \<open>a\<close> and \<open>b\<close> is a
  plain instance of its constructor (\<open>conforms\<close>): the constructor is a function that
  fixes whether the object is an array and whether it overrides \<open>valueOf\<close> and
  \<open>toString\<close>, and an object compared field by field has only enumerable own
  properties.  This covers the array, regex, \<open>valueOf\<close>, \<open>toString\<close>, plain-structure and
  NaN branches.
\<close>

theorem deepEqual_reflexive_symmetric:
  "deepEqual a a
   \<and> (conforms cls a \<and> conforms cls b \<longrightarrow> deepEqual a b = deepEqual b a)"
  using deepEqual_refl [of a] deepEqual_sym [of cls a b] by blast

theorem deepEqual_reflexive_symmetric_witness:
  "conforms sample_classes sample_a \<and> conforms sample_classes sample_b
   \<and> deepEqual sample_a sample_a
   \<and> deepEqual sample_a sample_b = deepEqual sample_b sample_a
   \<and> deepEqual sample_a sample_b"
proof -
  have c: "conforms sample_classes sample_a" "conforms sample_classes sample_b"
    by code_simp+
  have e: "deepEqual sample_a sample_b" by code_simp
  from c e deepEqual_reflexive_symmetric [of sample_a sample_classes sample_b]
  show ?thesis by blast
qed

text \<open>
  C4 as stated fails: symmetry does not hold for all values.  The empty array \<open>[]\<close> and
  the object literal \<open>{constructor: Array, length: 0}\<close> have the same \<open>constructor\<close>;
  with the array first the array branch compares the lengths and returns true, with the
  literal first the key counts (2 and 0) differ and the result is false.
\<close>

theorem deepEqual_not_symmetric:
  "deepEqual
     (Obj 1 Array Array_ctor None (Some (Str [])) [] [])
     (Obj 2 Ordinary Object_ctor None None []
        [(''constructor'', Array_ctor, True), (''length'', Num (Finite 0), True)])
   \<and> \<not> deepEqual
     (Obj 2 Ordinary Object_ctor None None []
        [(''constructor'', Array_ctor, True), (''length'', Num (Finite 0), True)])
     (Obj 1 Array Array_ctor None (Some (Str [])) [] [])"
  by code_simp

section \<open>The serializer and the sentinel\<close>

lemma length_quoted_sentinel: "length quoted_sentinel = 19"
  by (simp add: quoted_sentinel_def sentinel_def)

lemma replace_sentinel_Nil: "replace_sentinel [] = []"
  by (subst replace_sentinel.simps) simp

lemma replace_sentinel_match:
  "replace_sentinel (quoted_sentinel @ s) = ''undefined'' @ replace_sentinel s"
  by (subst replace_sentinel.simps) (simp add: quoted_sentinel_def sentinel_def)

lemma replace_sentinel_other:
  assumes "c \<noteq> dquote"
  shows "replace_sentinel (c # s) = c # replace_sentinel s"
proof -
  have "take (length quoted_sentinel) (c # s) \<noteq> quoted_sentinel"
    using assms by (simp add: quoted_sentinel_def sentinel_def)
  then show ?thesis by (subst replace_sentinel.simps) simp
qed

lemma replace_sentinel_split:
  assumes "c \<notin> set quoted_sentinel"
  shows "replace_sentinel (xs @ c # ys) = replace_sentinel xs @ c # replace_sentinel ys"
proof (induction xs rule: length_induct)
  case (1 xs)
  show ?case
  proof (cases xs)
    case Nil
    from assms have "c \<noteq> dquote" by (auto simp: quoted_sentinel_def)
    then show ?thesis by (simp add: Nil replace_sentinel_other replace_sentinel_Nil)
  next
    case (Cons x xs')
    show ?thesis
    proof (cases "take (length quoted_sentinel) xs = quoted_sentinel")
      case True
      then have "length (take (length quoted_sentinel) xs) = length quoted_sentinel"
        by simp
      then have len: "length quoted_sentinel \<le> length xs"
        by simp
      with True have t: "take (length quoted_sentinel) (xs @ c # ys) = quoted_sentinel" by simp
      from len have d: "drop (length quoted_sentinel) (xs @ c # ys)
          = drop (length quoted_sentinel) xs @ c # ys" by simp
      have "length (drop (length quoted_sentinel) xs) < length xs"
        using Cons by (simp add: length_quoted_sentinel)
      with "1.IH" have ih: "replace_sentinel (drop (length quoted_sentinel) xs @ c # ys)
          = replace_sentinel (drop (length quoted_sentinel) xs) @ c # replace_sentinel ys"
        by blast
      have l: "replace_sentinel (xs @ c # ys)
          = ''undefined'' @ replace_sentinel (drop (length quoted_sentinel) xs @ c # ys)"
        by (subst replace_sentinel.simps) (simp only: t d, simp)
      have r: "replace_sentinel xs
          = ''undefined'' @ replace_sentinel (drop (length quoted_sentinel) xs)"
        by (subst replace_sentinel.simps) (simp only: True, simp add: Cons)
      show ?thesis by (simp only: l r ih append_assoc)
    next
      case False
      have nt: "take (length quoted_sentinel) (xs @ c # ys) \<noteq> quoted_sentinel"
      proof (cases "length quoted_sentinel \<le> length xs")
        case True
        with False show ?thesis by simp
      next
        case False
        then have "c \<in> set (take (length quoted_sentinel) (xs @ c # ys))"
          by (simp add: length_quoted_sentinel) (cases "19 - length xs", simp_all)
        with assms show ?thesis by metis
      qed
      have "length xs' < length xs" by (simp add: Cons)
      with "1.IH" have ih: "replace_sentinel (xs' @ c # ys)
          = replace_sentinel xs' @ c # replace_sentinel ys"
        by blast
      have l: "replace_sentinel (xs @ c # ys) = x # replace_sentinel (xs' @ c # ys)"
        by (subst replace_sentinel.simps) (simp only: nt, simp add: Cons)
      have r: "replace_sentinel xs = x # replace_sentinel xs'"
        by (subst replace_sentinel.simps) (simp only: False, simp add: Cons)
      show ?thesis by (simp only: l r ih append_Cons)
    qed
  qed
qed

lemma quote_sentinel: "QuoteJSONString sentinel = quoted_sentinel"
  by (simp add: QuoteJSONString_def quoted_sentinel_def sentinel_def quote_char_def
      dquote_def backslash_def)

lemma serialize_Undefined: "SerializeJSONProperty ind Undefined = Some quoted_sentinel"
  by (subst SerializeJSONProperty.simps) (simp add: replacer_def quote_sentinel)

lemma serialize_sentinel: "SerializeJSONProperty ind (Str sentinel) = Some quoted_sentinel"
  by (subst SerializeJSONProperty.simps) (simp add: replacer_def quote_sentinel)

lemma serialize_single_field:
  assumes "SerializeJSONProperty (ind @ gap) x = Some strP"
  shows "SerializeJSONProperty ind (Obj r Ordinary pc vo ts es [(k, x, True)])
    = Some (''{'' @ [newline] @ ind @ gap @ QuoteJSONString k @ '': '' @ strP
            @ [newline] @ ind @ ''}'')"
  by (subst SerializeJSONProperty.simps)
     (auto simp: Let_def replacer_def get_def named_props_def assms)

lemma serialize_single_elem:
  assumes "SerializeJSONProperty (ind @ gap) x = Some strP"
  shows "SerializeJSONProperty ind (Obj r Array pc vo ts [x] ps)
    = Some (''['' @ [newline] @ ind @ gap @ strP @ [newline] @ ind @ '']'')"
  by (subst SerializeJSONProperty.simps)
     (auto simp: Let_def replacer_def get_def index_props_def enumerate_eq_zip string_of_nat.simps
        digit_char_def assms)

lemma quoted_sentinel_nonempty: "quoted_sentinel \<noteq> []"
  by (simp add: quoted_sentinel_def)

lemma replace_quoted_sentinel: "replace_sentinel quoted_sentinel = ''undefined''"
  using replace_sentinel_match [of "[]"] by (simp add: replace_sentinel_Nil)

lemma toJSON_Undefined: "toJSON Undefined = ''undefined''"
  unfolding toJSON_def JSON_stringify_def serialize_Undefined
  by (simp add: quoted_sentinel_nonempty replace_quoted_sentinel)

lemma toJSON_sentinel: "toJSON (Str sentinel) = ''undefined''"
  unfolding toJSON_def JSON_stringify_def serialize_sentinel
  by (simp add: quoted_sentinel_nonempty replace_quoted_sentinel)

lemma space_not_in_sentinel: "CHR '' '' \<notin> set quoted_sentinel"
  by (simp add: quoted_sentinel_def sentinel_def dquote_def)

lemma replace_sentinel_tail: "replace_sentinel (newline # s) = newline # replace_sentinel s"
  by (rule replace_sentinel_other) (simp add: newline_def dquote_def)

lemma replace_sentinel_after_space:
  "replace_sentinel (xs @ '' '' @ quoted_sentinel @ ys)
   = replace_sentinel xs @ '' undefined'' @ replace_sentinel ys"
proof -
  have "replace_sentinel (xs @ CHR '' '' # (quoted_sentinel @ ys))
      = replace_sentinel xs @ CHR '' '' # replace_sentinel (quoted_sentinel @ ys)"
    by (rule replace_sentinel_split [OF space_not_in_sentinel])
  then show ?thesis by (simp add: replace_sentinel_match)
qed

lemma toJSON_undefined_field:
  "toJSON (Obj r Ordinary pc vo ts es [(k, Undefined, True)])
   = ''{'' @ [newline] @ ''  '' @ replace_sentinel (QuoteJSONString k @ '':'')
     @ '' undefined'' @ [newline] @ ''}''"
proof -
  define A where "A = ''{'' @ [newline] @ ''  '' @ QuoteJSONString k @ '':''"
  define B where "B = quoted_sentinel @ [newline] @ ''}''"
  have ser: "JSON_stringify (Obj r Ordinary pc vo ts es [(k, Undefined, True)])
      = Some (A @ CHR '' '' # B)"
    unfolding JSON_stringify_def A_def B_def
    by (simp add: serialize_single_field [OF serialize_Undefined] gap_def)
  have left: "replace_sentinel A
      = ''{'' @ [newline] @ ''  '' @ replace_sentinel (QuoteJSONString k @ '':'')"
    unfolding A_def
    by (simp add: replace_sentinel_other replace_sentinel_tail dquote_def)
  have right: "replace_sentinel B = ''undefined'' @ [newline] @ ''}''"
    unfolding B_def
    by (simp add: replace_sentinel_match replace_sentinel_tail replace_sentinel_other
        replace_sentinel_Nil dquote_def)
  have "toJSON (Obj r Ordinary pc vo ts es [(k, Undefined, True)])
      = replace_sentinel (A @ CHR '' '' # B)"
    unfolding toJSON_def ser by simp
  also have "\<dots> = replace_sentinel A @ CHR '' '' # replace_sentinel B"
    by (rule replace_sentinel_split [OF space_not_in_sentinel])
  finally show ?thesis by (simp add: left right)
qed

lemma toJSON_undefined_elem:
  "toJSON (Obj r Array pc vo ts [Undefined] ps)
   = ''['' @ [newline] @ ''  undefined'' @ [newline] @ '']''"
proof -
  define A where "A = ''['' @ [newline] @ '' ''"
  define B where "B = quoted_sentinel @ [newline] @ '']''"
  have ser: "JSON_stringify (Obj r Array pc vo ts [Undefined] ps) = Some (A @ CHR '' '' # B)"
    unfolding JSON_stringify_def A_def B_def
    by (simp add: serialize_single_elem [OF serialize_Undefined] gap_def)
  have left: "replace_sentinel A = ''['' @ [newline] @ '' ''"
    unfolding A_def
    by (simp add: replace_sentinel_other replace_sentinel_tail replace_sentinel_Nil dquote_def)
  have right: "replace_sentinel B = ''undefined'' @ [newline] @ '']''"
    unfolding B_def
    by (simp add: replace_sentinel_match replace_sentinel_tail replace_sentinel_other
        replace_sentinel_Nil dquote_def)
  have "toJSON (Obj r Array pc vo ts [Undefined] ps) = replace_sentinel (A @ CHR '' '' # B)"
    unfolding toJSON_def ser by simp
  also have "\<dots> = replace_sentinel A @ CHR '' '' # replace_sentinel B"
    by (rule replace_sentinel_split [OF space_not_in_sentinel])
  finally show ?thesis by (simp add: left right)
qed

lemma toJSON_sentinel_field:
  "toJSON (Obj r Ordinary pc vo ts es [(k, Str sentinel, True)])
   = toJSON (Obj r Ordinary pc vo ts es [(k, Undefined, True)])"
  unfolding toJSON_def JSON_stringify_def
  by (simp add: serialize_single_field [OF serialize_Undefined]
      serialize_single_field [OF serialize_sentinel])

section \<open>Assertions, plans and runs\<close>

lemma string_of_nat_digit: "n < 10 \<Longrightarrow> string_of_nat n = [digit_char n]"
  by (subst string_of_nat.simps) simp

lemma report_emit: "report (emit l r) = report r @ [l]"
  by (simp add: emit_def)

lemma report_emit_all: "report (emit_all ls r) = report r @ ls"
  unfolding emit_all_def by (induction ls arbitrary: r) (simp_all add: report_emit)

lemma emit_all_Nil: "emit_all [] r = r"
  by (simp add: emit_all_def)

lemma emit_all_Cons: "emit_all (l # ls) r = emit_all ls (emit l r)"
  by (simp add: emit_all_def)

lemma emit_all_append: "emit_all (xs @ ys) r = emit_all ys (emit_all xs r)"
  by (simp add: emit_all_def)

lemma failure_head_emit:
  "emit_all (failure_head a e op cs) r =
     (let ex = toJSON e; ac = toJSON (shown_actual a);
          r3 = emit ''  ---'' r;
          r4 = emit (''    operator: '' @ op) r3;
          r5 = (if max (length ex) (length ac) > 65
                then emit (''    actual:   |-'' @ [newline] @ ''      '' @ indent_newlines ac)
                       (emit (''    expected: |-'' @ [newline] @ ''      ''
                              @ indent_newlines ex) r4)
                else emit (''    actual:   '' @ ac) (emit (''    expected: '' @ ex) r4));
          r6 = (if at_line cs \<noteq> [] then emit (''    at:       '' @ at_line cs) r5 else r5)
      in emit ''    stack:    |-'' r6)"
  by (simp add: failure_head_def value_lines_def Let_def emit_all_Cons emit_all_Nil
      emit_all_append)

lemma report_failure_eq:
  "report_failure a e op cs t r =
     (case shown_stack a cs of
        Str s \<Rightarrow>
          (Returned (), t\<lparr>result := (result t)\<lparr>fail := fail (result t) + 1\<rparr>\<rparr>,
           Some (emit_all (failure_head a e op cs
                           @ map (\<lambda>line. ''      '' @ line) (split_lines s) @ [''  ...'']) r))
      | _ \<Rightarrow>
          (Thrown TypeError, t\<lparr>result := (result t)\<lparr>fail := fail (result t) + 1\<rparr>\<rparr>,
           Some (emit_all (failure_head a e op cs) r)))"
  unfolding emit_all_append failure_head_emit
  unfolding report_failure_def shown_stack_def shown_actual_def Let_def
  by (simp add: emit_all_Cons emit_all_Nil split: jsval.splits split del: if_split)

lemma report_failure_lines:
  assumes "report_failure a e op cs t r = (out, t', ro')"
  shows "\<exists>r' rest. ro' = Some r'
    \<and> report r' = report r @ [''  ---'', ''    operator: '' @ op]
        @ value_lines (toJSON e) (toJSON (shown_actual a)) @ rest"
  using assms
  by (auto simp: report_failure_eq report_emit_all failure_head_def split: jsval.splits)

lemma Test_assert_failure_lines:
  assumes "\<not> done' t" and "\<forall>p. planned t = Some p \<longrightarrow> actual_count t + 1 \<le> p"
    and "Test_assert False a e d op cs t (Some r) = (out, t', ro')"
  shows "\<exists>r' rest. ro' = Some r'
    \<and> report r' = report r
        @ [''not ok '' @ string_of_nat (id_counter r + 1) @ '' '' @ d,
           ''  ---'', ''    operator: '' @ op]
        @ value_lines (toJSON e) (toJSON (shown_actual a)) @ rest"
proof -
  let ?t1 = "case planned t of None \<Rightarrow> t | Some p \<Rightarrow> t\<lparr>actual := Some (actual_count t + 1)\<rparr>"
  let ?r2 = "emit (''not ok '' @ string_of_nat (id_counter r + 1) @ '' '' @ d)
               (r\<lparr>id_counter := id_counter r + 1\<rparr>)"
  from assms have "report_failure a e op cs ?t1 ?r2 = (out, t', ro')"
    by (auto simp: Test_assert_def Let_def nextId_def actual_count_def split: option.splits)
  from report_failure_lines [OF this] show ?thesis
    by (auto simp: report_emit)
qed


lemma report_failure_test:
  assumes "report_failure a e op cs t r = (out, t', ro')"
  shows "t' = t\<lparr>result := (result t)\<lparr>fail := fail (result t) + 1\<rparr>\<rparr>"
  using assms by (auto simp: report_failure_eq split: jsval.splits)

lemma Test_assert_done:
  "done' t \<Longrightarrow> Test_assert ok a e d op cs t ro = (Thrown (AssertionAfterFinished (name t)), t, ro)"
  by (simp add: Test_assert_def)

lemma Test_assert_over_plan:
  assumes "\<not> done' t" "planned t = Some n" "n < actual_count t + 1"
  shows "Test_assert ok a e d op cs t ro
    = (Thrown (MoreTestsThanPlanned (name t)), t\<lparr>actual := Some (actual_count t + 1)\<rparr>, ro)"
  using assms by (simp add: Test_assert_def actual_count_def)

lemma Test_assert_fields:
  assumes "Test_assert ok a e d op cs t ro = (out, t', ro')"
  shows "planned t' = planned t" and "name t' = name t" and "done' t' = done' t"
    and "Test.strict t' = Test.strict t" and "fn t' = fn t"
    and "actual t' = (if done' t then actual t
                      else case planned t of None \<Rightarrow> actual t
                           | Some p \<Rightarrow> Some (actual_count t + 1))"
  using assms
  by (auto simp: Test_assert_def Let_def split: if_splits option.splits prod.splits
      dest!: report_failure_test)

lemma Test_assert_returned:
  assumes "Test_assert ok a e d op cs t ro = (Returned u, t', ro')" "planned t = Some n"
  shows "actual t' = Some (actual_count t + 1)" and "actual_count t + 1 \<le> n"
  using assms
  by (auto simp: Test_assert_def Let_def actual_count_def
      split: if_splits option.splits prod.splits dest!: report_failure_test)


lemma Test_throws_cases:
  assumes "Test_throws fr m x msg cs t ro = (out, t', ro')"
  shows "(out = Thrown MsgRequired \<and> t' = t \<and> ro' = ro)
    \<or> (\<exists>s. out = Thrown (ThrowsNotImplemented s) \<and> t' = t \<and> ro' = ro)
    \<or> (\<exists>ok act exp d op. Test_assert ok act exp d op cs t ro = (out, t', ro'))"
  using assms unfolding Test_throws_def Let_def
  by (auto split: if_splits)

lemma Test_assertion_cases:
  assumes "Test_assertion a msg cs t ro = (out, t', ro')"
  shows "(out = Thrown MsgRequired \<and> t' = t \<and> ro' = ro)
    \<or> (\<exists>s. out = Thrown (ThrowsNotImplemented s) \<and> t' = t \<and> ro' = ro)
    \<or> (\<exists>ok act exp d op. Test_assert ok act exp d op cs t ro = (out, t', ro'))"
proof (cases a)
  case (Throws fr x m)
  with assms have "Test_throws fr m x msg cs t ro = (out, t', ro')" by simp
  then show ?thesis by (rule Test_throws_cases)
qed (use assms in \<open>auto simp: Test_deepEqual_def Test_notDeepEqual_def Test_equal_def
      Test_notEqual_def Test_fail_def Test_ok_def Test_ifError_def split: if_splits\<close>)

lemma Test_assertion_actual:
  assumes "Test_assertion a msg cs t ro = (out, t', ro')"
  shows "planned t' = planned t"
    and "planned t = None \<Longrightarrow> actual t' = actual t"
    and "planned t = Some p \<Longrightarrow> out = Returned u \<Longrightarrow> actual t' = Some (actual_count t + 1)"
    and "planned t = Some p \<Longrightarrow> out = Returned u \<Longrightarrow> actual_count t + 1 \<le> p"
    and "actual_count t' \<le> actual_count t + 1"
proof -
  from Test_assertion_cases [OF assms] consider
      (early) "t' = t" "\<exists>e. out = Thrown e"
    | (assert) ok act exp d op where "Test_assert ok act exp d op cs t ro = (out, t', ro')"
    by blast
  then show "planned t' = planned t"
    by cases (simp_all add: Test_assert_fields)
  from Test_assertion_cases [OF assms] consider
      (early) "t' = t" "\<exists>e. out = Thrown e"
    | (assert) ok act exp d op where "Test_assert ok act exp d op cs t ro = (out, t', ro')"
    by blast
  then show "planned t = None \<Longrightarrow> actual t' = actual t"
    by cases (simp_all add: Test_assert_fields)
  from Test_assertion_cases [OF assms] consider
      (early) "t' = t" "\<exists>e. out = Thrown e"
    | (assert) ok act exp d op where "Test_assert ok act exp d op cs t ro = (out, t', ro')"
    by blast
  then show "planned t = Some p \<Longrightarrow> out = Returned u \<Longrightarrow> actual t' = Some (actual_count t + 1)"
    by cases (auto dest: Test_assert_returned)
  from Test_assertion_cases [OF assms] consider
      (early) "t' = t" "\<exists>e. out = Thrown e"
    | (assert) ok act exp d op where "Test_assert ok act exp d op cs t ro = (out, t', ro')"
    by blast
  then show "planned t = Some p \<Longrightarrow> out = Returned u \<Longrightarrow> actual_count t + 1 \<le> p"
    by cases (auto dest: Test_assert_returned)
  from Test_assertion_cases [OF assms] consider
      (early) "t' = t" "\<exists>e. out = Thrown e"
    | (assert) ok act exp d op where "Test_assert ok act exp d op cs t ro = (out, t', ro')"
    by blast
  then show "actual_count t' \<le> actual_count t + 1"
    by cases (auto simp: Test_assert_fields actual_count_def split: option.splits)
qed

lemma exec_action_actual:
  assumes "exec_action x t ro = (out, t', ro')"
  shows "actual_count t' \<le> actual_count t + (if is_Assert x then 1 else 0)"
proof (cases x)
  case (Assert a msg cs)
  with assms Test_assertion_actual(5) [of a msg cs t ro out t' ro'] show ?thesis by simp
qed (use assms in \<open>auto simp: Test_plan_def actual_count_def\<close>)

lemma exec_fn_actual:
  "exec_fn as t ro = (out, t', ro')
   \<Longrightarrow> actual_count t' \<le> actual_count t + int (assertion_calls as)"
proof (induction as arbitrary: t ro)
  case Nil
  then show ?case by (simp add: assertion_calls_def)
next
  case (Cons x xs)
  obtain o1 t1 ro1 where step: "exec_action x t ro = (o1, t1, ro1)"
    by (cases "exec_action x t ro") auto
  note b1 = exec_action_actual [OF step]
  show ?case
  proof (cases o1)
    case (Thrown e)
    with Cons.prems step have "t' = t1" by simp
    with b1 show ?thesis by (auto simp: assertion_calls_def split: if_splits)
  next
    case (Returned u)
    with Cons.prems step have "exec_fn xs t1 ro1 = (out, t', ro')" by simp
    from Cons.IH [OF this] b1 show ?thesis by (auto simp: assertion_calls_def split: if_splits)
  qed
qed

lemma exec_action_within_plan:
  assumes "exec_action x t ro = (Returned u, t1, ro1)" and "planned t = Some n"
    and "\<not> is_Plan x" and "actual_count t \<le> n"
  shows "planned t1 = Some n \<and> actual_count t1 \<le> n"
proof (cases x)
  case (Comment msg)
  with assms show ?thesis by auto
next
  case (Plan k)
  with assms show ?thesis by simp
next
  case (Assert a msg cs)
  with assms have c: "Test_assertion a msg cs t ro = (Returned u, t1, ro1)" by simp
  from Test_assertion_actual(1,3,4) [OF c] assms(2)
  show ?thesis by (simp add: actual_count_def)
qed

lemma exec_fn_within_plan:
  "exec_fn as t ro = (Returned u, t', ro') \<Longrightarrow> planned t = Some n
   \<Longrightarrow> \<not> list_ex is_Plan as \<Longrightarrow> actual_count t \<le> n
   \<Longrightarrow> planned t' = Some n \<and> actual_count t' \<le> n"
proof (induction as arbitrary: t ro)
  case Nil
  then show ?case by simp
next
  case (Cons x xs)
  obtain o1 t1 ro1 where step: "exec_action x t ro = (o1, t1, ro1)"
    by (cases "exec_action x t ro") auto
  show ?case
  proof (cases o1)
    case (Thrown e)
    with Cons.prems(1) step show ?thesis by simp
  next
    case (Returned v)
    with Cons.prems(1) step have rest: "exec_fn xs t1 ro1 = (Returned u, t', ro')" by simp
    from Cons.prems(3) have np: "\<not> is_Plan x" "\<not> list_ex is_Plan xs" by simp_all
    from exec_action_within_plan [OF step [unfolded Returned] Cons.prems(2) np(1) Cons.prems(4)]
    have "planned t1 = Some n" "actual_count t1 \<le> n" by simp_all
    from Cons.IH [OF rest this(1) np(2) this(2)] show ?thesis .
  qed
qed

lemma Test_run_under_plan:
  assumes "exec_fn (fn t) t (map_option (emit (''# '' @ name t)) ro) = (Returned u, t1, ro1)"
    and "planned t1 = Some n"
    and "actual_count t + int (assertion_calls (fn t)) < n"
  shows "Test_run t ro
    = (Thrown (EndedBeforePlanned n (actual_count t1)), t1\<lparr>done' := True\<rparr>, ro1)"
proof -
  from exec_fn_actual [OF assms(1)] assms(3) have "actual_count t1 < n" by simp
  with assms(1,2) show ?thesis by (simp add: Test_run_def actual_count_def)
qed

lemma retest_simp [simp]:
  "retest x (out, t', ro') = (out, t', map_option (\<lambda>r. r\<lparr>tests := x\<rparr>) ro')"
  by (simp add: retest_def)

lemma emit_tests: "emit l (r\<lparr>tests := x\<rparr>) = (emit l r)\<lparr>tests := x\<rparr>"
  by (simp add: emit_def)

lemma emit_all_tests: "emit_all ls (r\<lparr>tests := x\<rparr>) = (emit_all ls r)\<lparr>tests := x\<rparr>"
  unfolding emit_all_def by (induction ls arbitrary: r) (simp_all add: emit_tests)

lemma nextId_tests: "nextId (r\<lparr>tests := x\<rparr>) = (fst (nextId r), (snd (nextId r))\<lparr>tests := x\<rparr>)"
  by (simp add: nextId_def)

lemma report_failure_tests:
  "report_failure a e op cs t (r\<lparr>tests := x\<rparr>) = retest x (report_failure a e op cs t r)"
  unfolding report_failure_eq
  by (cases "shown_stack a cs") (simp_all add: emit_all_tests)

lemma Test_assert_tests:
  "Test_assert ok a e d op cs t (map_option (\<lambda>r. r\<lparr>tests := x\<rparr>) ro)
   = retest x (Test_assert ok a e d op cs t ro)"
  by (cases ro)
     (simp_all add: Test_assert_def Let_def nextId_tests emit_tests report_failure_tests
        split_def)

lemma Test_throws_tests:
  "Test_throws fr m ex msg cs t (map_option (\<lambda>r. r\<lparr>tests := x\<rparr>) ro)
   = retest x (Test_throws fr m ex msg cs t ro)"
  by (simp add: Test_throws_def Let_def Test_assert_tests)

lemma Test_assertion_tests:
  "Test_assertion a msg cs t (map_option (\<lambda>r. r\<lparr>tests := x\<rparr>) ro)
   = retest x (Test_assertion a msg cs t ro)"
  by (cases a)
     (simp_all add: Test_deepEqual_def Test_notDeepEqual_def Test_equal_def
        Test_notEqual_def Test_fail_def Test_ok_def Test_ifError_def Test_throws_tests
        Test_assert_tests)

lemma exec_action_tests:
  "exec_action a t (map_option (\<lambda>r. r\<lparr>tests := x\<rparr>) ro) = retest x (exec_action a t ro)"
proof (cases a)
  case (Comment msg)
  then show ?thesis by (cases ro) (simp_all add: Test_comment_def emit_tests)
next
  case (Plan n)
  then show ?thesis by simp
next
  case (Assert a' msg cs)
  then show ?thesis by (simp add: Test_assertion_tests)
qed

lemma exec_fn_tests:
  "exec_fn as t (map_option (\<lambda>r. r\<lparr>tests := x\<rparr>) ro) = retest x (exec_fn as t ro)"
proof (induction as arbitrary: t ro)
  case Nil
  show ?case by simp
next
  case (Cons a as)
  obtain out t1 ro1 where step: "exec_action a t ro = (out, t1, ro1)"
    by (cases "exec_action a t ro") auto
  show ?case
    by (cases out) (simp_all add: exec_action_tests step Cons.IH)
qed

lemma Test_run_tests:
  "Test_run t (map_option (\<lambda>r. r\<lparr>tests := x\<rparr>) ro) = retest x (Test_run t ro)"
proof -
  have m: "map_option (emit (''# '' @ name t)) (map_option (\<lambda>r. r\<lparr>tests := x\<rparr>) ro)
      = map_option (\<lambda>r. r\<lparr>tests := x\<rparr>) (map_option (emit (''# '' @ name t)) ro)"
    by (cases ro) (simp_all add: emit_tests)
  obtain out t1 ro1
    where step: "exec_fn (fn t) t (map_option (emit (''# '' @ name t)) ro) = (out, t1, ro1)"
    by (cases "exec_fn (fn t) t (map_option (emit (''# '' @ name t)) ro)") auto
  show ?thesis
    unfolding Test_run_def m exec_fn_tests step
    by (cases out) (simp_all add: Let_def split: option.splits)
qed

lemma run_tests_tests:
  "run_tests ts (r\<lparr>tests := x\<rparr>) acc
   = (case run_tests ts r acc of (out, ts', r') \<Rightarrow> (out, ts', r'\<lparr>tests := x\<rparr>))"
proof (induction ts arbitrary: r acc)
  case Nil
  show ?case by simp
next
  case (Cons t ts)
  obtain tot success failed where acc: "acc = (tot, success, failed)" by (cases acc) auto
  obtain out t1 ro1 where step: "Test_run t (Some r) = (out, t1, ro1)"
    by (cases "Test_run t (Some r)") auto
  have step': "Test_run t (Some (r\<lparr>tests := x\<rparr>))
      = (out, t1, map_option (\<lambda>r. r\<lparr>tests := x\<rparr>) ro1)"
    using Test_run_tests [of t x "Some r"] step by simp
  show ?case
  proof (cases out)
    case (Thrown e)
    then show ?thesis by (cases ro1) (simp_all add: acc step step')
  next
    case (Returned res)
    then show ?thesis
      by (cases ro1) (simp_all add: acc step step' Cons.IH split: prod.splits)
  qed
qed

lemma TestRunner_run_tests:
  assumes "onlyTests r \<noteq> []"
  shows "TestRunner_run (r\<lparr>tests := x\<rparr>)
    = (case TestRunner_run r of (out, r') \<Rightarrow> (out, r'\<lparr>tests := x\<rparr>))"
proof -
  obtain out ts1 r1
    where step: "run_tests (onlyTests r) (emit ''TAP version 13'' r) (0, 0, 0) = (out, ts1, r1)"
    by (cases "run_tests (onlyTests r) (emit ''TAP version 13'' r) (0, 0, 0)") auto
  then have step': "run_tests (onlyTests r) (emit ''TAP version 13'' (r\<lparr>tests := x\<rparr>)) (0, 0, 0)
      = (out, ts1, r1\<lparr>tests := x\<rparr>)"
    by (simp add: emit_tests run_tests_tests)
  show ?thesis
  proof (cases out)
    case (Thrown e)
    with assms step step' show ?thesis
      by (simp add: TestRunner_run_def)
  next
    case (Returned acc)
    obtain tot success failed where acc: "acc = (tot, success, failed)" by (cases acc) auto
    with Returned assms step step' show ?thesis
      by (simp add: TestRunner_run_def Let_def emit_def)
  qed
qed

section \<open>Running tests: the claims about the runner and the plan\<close>

text \<open>
  C1.  A runner constructed with an injected (empty) line sink, holding one non-exclusive
  test \<open>t1\<close> whose function calls \<open>ok(true)\<close> once without a description: \<open>run()\<close>
  returns, and the sink holds exactly the nine lines below, in this order.  The final
  state of the runner is given in full; \<open>cs\<close> is the call site of the assertion.
\<close>

theorem run_single_passing_test:
  "TestRunner_run (snd (add ''t1'' [Assert (Ok (Bool True)) None cs] False new_TestRunner))
   = (Returned (),
      new_TestRunner
        \<lparr> report := [''TAP version 13'', ''# t1'', ''ok 1 should be truthy'', [], ''1..1'',
                      ''# tests 1'', ''# pass  1'', [], ''# ok''],
          tests := [\<lparr> name = ''t1'', planned = None, actual = None,
                       fn = [Assert (Ok (Bool True)) None cs],
                       result = \<lparr> pass = 1, fail = 0 \<rparr>, done' = True, strict = False \<rparr>],
          scheduled := True, id_counter := 1, completed := True \<rparr>)"
  by (simp add: TestRunner_run_def add_def new_TestRunner_def new_Test_def Let_def
      Test_run_def Test_ok_def msg_required_def msg_given_def msg_or_def Test_assert_def
      nextId_def emit_def string_of_nat_digit digit_char_def)

theorem run_single_passing_test_witness:
  "report (snd (TestRunner_run
     (snd (add ''t1'' [Assert (Ok (Bool True)) None site0] False new_TestRunner))))
   = [''TAP version 13'', ''# t1'', ''ok 1 should be truthy'', [], ''1..1'',
      ''# tests 1'', ''# pass  1'', [], ''# ok'']"
  using run_single_passing_test [of site0] by simp

text \<open>
  C2 (as amended).  On a test whose plan in force is \<open>n\<close>, for every assertion call:
  if the call returns, the actual count was incremented and is at most \<open>n\<close>; if the
  count had already reached \<open>n\<close>, the call throws, the runner is as before (no result
  line was written, no identifier was taken) and the tally is unchanged.  The error is
  \<open>More tests than planned\<close> unless the call is refused for another usage fault first; in
  \<open>_assert\<close> itself, on a test that is not done, it is always that error, and the state it
  leaves holds the incremented count \<open>n + 1\<close>.  While a test function that starts with
  a count of at most \<open>n\<close> and does not plan again runs without a throw, the count stays
  at most \<open>n\<close>.
\<close>

theorem plan_never_exceeded:
  assumes "planned t = Some n"
  shows "(Test_assertion a msg cs t ro = (out, t', ro') \<longrightarrow>
           (out = Returned () \<longrightarrow>
              actual t' = Some (actual_count t + 1) \<and> actual_count t' \<le> n)
           \<and> (n \<le> actual_count t \<longrightarrow>
                (\<exists>e. out = Thrown e
                   \<and> (e = MoreTestsThanPlanned (name t) \<or> e = AssertionAfterFinished (name t)
                       \<or> e = MsgRequired \<or> (\<exists>s. e = ThrowsNotImplemented s)))
                \<and> ro' = ro \<and> result t' = result t))
    \<and> (n \<le> actual_count t \<and> \<not> done' t \<longrightarrow>
         Test_assert ok act exp d op cs t ro
         = (Thrown (MoreTestsThanPlanned (name t)),
            t\<lparr>actual := Some (actual_count t + 1)\<rparr>, ro))
    \<and> (exec_fn as t ro = (Returned (), t2, ro2) \<and> \<not> list_ex is_Plan as
         \<and> actual_count t \<le> n \<longrightarrow> planned t2 = Some n \<and> actual_count t2 \<le> n)"
proof (intro conjI impI)
  assume c: "Test_assertion a msg cs t ro = (out, t', ro')" and "out = Returned ()"
  with Test_assertion_actual(3,4) [OF c assms]
  show "actual t' = Some (actual_count t + 1)" and "actual_count t' \<le> n"
    by (simp_all add: actual_count_def)
next
  assume c: "Test_assertion a msg cs t ro = (out, t', ro')" and full: "n \<le> actual_count t"
  from Test_assertion_cases [OF c] consider
      (early) "out = Thrown MsgRequired \<or> (\<exists>s. out = Thrown (ThrowsNotImplemented s))"
        "t' = t" "ro' = ro"
    | (assert) ok' act' exp' d' op'
      where "Test_assert ok' act' exp' d' op' cs t ro = (out, t', ro')"
    by blast
  then have "(\<exists>e. out = Thrown e
            \<and> (e = MoreTestsThanPlanned (name t) \<or> e = AssertionAfterFinished (name t)
                \<or> e = MsgRequired \<or> (\<exists>s. e = ThrowsNotImplemented s)))
         \<and> ro' = ro \<and> result t' = result t"
  proof cases
    case early
    then show ?thesis by auto
  next
    case assert
    show ?thesis
    proof (cases "done' t")
      case True
      with assert show ?thesis by (auto simp: Test_assert_done)
    next
      case False
      from full have "n < actual_count t + 1" by simp
      from Test_assert_over_plan [OF False assms this] assert show ?thesis by auto
    qed
  qed
  then show "\<exists>e. out = Thrown e
            \<and> (e = MoreTestsThanPlanned (name t) \<or> e = AssertionAfterFinished (name t)
                \<or> e = MsgRequired \<or> (\<exists>s. e = ThrowsNotImplemented s))"
    and "ro' = ro" and "result t' = result t"
    by blast+
next
  assume "n \<le> actual_count t \<and> \<not> done' t"
  then have "\<not> done' t" and "n < actual_count t + 1" by simp_all
  from Test_assert_over_plan [OF this(1) assms this(2)]
  show "Test_assert ok act exp d op cs t ro
         = (Thrown (MoreTestsThanPlanned (name t)),
            t\<lparr>actual := Some (actual_count t + 1)\<rparr>, ro)" .
next
  assume h: "exec_fn as t ro = (Returned (), t2, ro2) \<and> \<not> list_ex is_Plan as
         \<and> actual_count t \<le> n"
  then have "exec_fn as t ro = (Returned (), t2, ro2)" "\<not> list_ex is_Plan as"
    "actual_count t \<le> n" by simp_all
  from exec_fn_within_plan [OF this(1) assms this(2,3)]
  show "planned t2 = Some n" and "actual_count t2 \<le> n" by simp_all
qed

lemma planned_test_reached:
  "exec_fn [Plan 2, Assert (Ok (Bool True)) None site0, Assert (Ok (Bool True)) None site0]
     (new_Test ''t'' [] (Some new_TestRunner)) (Some new_TestRunner)
   = (Returned (), planned_test, Some planned_runner)"
  by (simp add: planned_test_def planned_runner_def new_TestRunner_def new_Test_def Let_def
      Test_plan_def Test_ok_def msg_required_def msg_given_def msg_or_def Test_assert_def
      actual_count_def nextId_def emit_def string_of_nat_digit digit_char_def)

theorem plan_never_exceeded_witness:
  "exec_fn [Plan 2, Assert (Ok (Bool True)) None site0, Assert (Ok (Bool True)) None site0]
     (new_Test ''t'' [] (Some new_TestRunner)) (Some new_TestRunner)
   = (Returned (), planned_test, Some planned_runner)
   \<and> planned planned_test = Some 2
   \<and> Test_assertion (Ok (Bool True)) None site0 planned_test (Some planned_runner)
     = (Thrown (MoreTestsThanPlanned ''t''), planned_test\<lparr>actual := Some 3\<rparr>,
        Some planned_runner)
   \<and> report planned_runner = [''ok 1 should be truthy'', ''ok 2 should be truthy'']
   \<and> result (planned_test\<lparr>actual := Some 3\<rparr>) = result planned_test"
proof -
  have p: "planned planned_test = Some 2" by (simp add: planned_test_def)
  have c: "Test_assertion (Ok (Bool True)) None site0 planned_test (Some planned_runner)
      = (Thrown (MoreTestsThanPlanned ''t''), planned_test\<lparr>actual := Some 3\<rparr>,
         Some planned_runner)"
    by (simp add: planned_test_def Test_ok_def msg_required_def msg_given_def
        Test_assert_def actual_count_def)
  have r: "report planned_runner = [''ok 1 should be truthy'', ''ok 2 should be truthy'']"
    by (simp add: planned_runner_def new_TestRunner_def)
  have f: "(2::int) \<le> actual_count planned_test"
    by (simp add: planned_test_def actual_count_def)
  from plan_never_exceeded [OF p, of "Ok (Bool True)" None site0 "Some planned_runner"
      "Thrown (MoreTestsThanPlanned ''t'')" "planned_test\<lparr>actual := Some 3\<rparr>"
      "Some planned_runner"] c f
  have "result (planned_test\<lparr>actual := Some 3\<rparr>) = result planned_test" by blast
  with planned_test_reached p c r show ?thesis by blast
qed

text \<open>
  C2 as stated fails: the count can exceed the declared plan.  \<open>plan\<close> only stores its
  argument and the count is compared with the plan inside an assertion call only, so
  after \<open>plan(5)\<close>, three passing \<open>ok(true)\<close> and \<open>plan(2)\<close> the count is 3 under a
  plan of 2, nothing throws, three result lines are written, and \<open>Test.run\<close> returns
  the tally.
\<close>

theorem plan_exceeded_after_replanning:
  "fst (Test_run
         (new_Test ''t''
            [Plan 5, Assert (Ok (Bool True)) None site0, Assert (Ok (Bool True)) None site0,
             Assert (Ok (Bool True)) None site0, Plan 2] (Some new_TestRunner))
         (Some new_TestRunner))
   = Returned \<lparr> pass = 3, fail = 0 \<rparr>
   \<and> planned (fst (snd (Test_run
         (new_Test ''t''
            [Plan 5, Assert (Ok (Bool True)) None site0, Assert (Ok (Bool True)) None site0,
             Assert (Ok (Bool True)) None site0, Plan 2] (Some new_TestRunner))
         (Some new_TestRunner)))) = Some 2
   \<and> actual (fst (snd (Test_run
         (new_Test ''t''
            [Plan 5, Assert (Ok (Bool True)) None site0, Assert (Ok (Bool True)) None site0,
             Assert (Ok (Bool True)) None site0, Plan 2] (Some new_TestRunner))
         (Some new_TestRunner)))) = Some 3
   \<and> map_option report (snd (snd (Test_run
         (new_Test ''t''
            [Plan 5, Assert (Ok (Bool True)) None site0, Assert (Ok (Bool True)) None site0,
             Assert (Ok (Bool True)) None site0, Plan 2] (Some new_TestRunner))
         (Some new_TestRunner))))
     = Some [''# t'', ''ok 1 should be truthy'', ''ok 2 should be truthy'',
             ''ok 3 should be truthy'']"
  by code_simp

text \<open>
  C3.  When the exclusive registry is not empty, \<open>run()\<close> does exactly what it would do
  with no non-exclusive test registered (the same outcome, the same lines, the same
  totals, the same exclusive tests afterwards), and the registry of non-exclusive tests is
  in the final state as it was: the tests in it were not run.
\<close>

theorem exclusive_tests_only:
  assumes "onlyTests r \<noteq> []"
  shows "TestRunner_run r
    = (case TestRunner_run (r\<lparr>tests := []\<rparr>) of (out, r') \<Rightarrow> (out, r'\<lparr>tests := tests r\<rparr>))"
proof -
  have "onlyTests (r\<lparr>tests := []\<rparr>) \<noteq> []" using assms by simp
  from TestRunner_run_tests [OF this, of "tests r"] show ?thesis by simp
qed

theorem exclusive_tests_only_witness:
  "onlyTests exclusive_runner \<noteq> []
   \<and> length (tests exclusive_runner) = 2
   \<and> fst (TestRunner_run exclusive_runner) = Returned ()
   \<and> report (snd (TestRunner_run exclusive_runner))
     = [''TAP version 13'', ''# only'', ''ok 1 should be truthy'', [], ''1..1'',
        ''# tests 1'', ''# pass  1'', [], ''# ok'']
   \<and> tests (snd (TestRunner_run exclusive_runner)) = tests exclusive_runner"
proof -
  have h: "onlyTests exclusive_runner \<noteq> []" and l: "length (tests exclusive_runner) = 2"
    by (simp_all add: exclusive_runner_def add_def new_TestRunner_def Let_def)
  have e: "fst (TestRunner_run (exclusive_runner\<lparr>tests := []\<rparr>)) = Returned ()
    \<and> report (snd (TestRunner_run (exclusive_runner\<lparr>tests := []\<rparr>)))
     = [''TAP version 13'', ''# only'', ''ok 1 should be truthy'', [], ''1..1'',
        ''# tests 1'', ''# pass  1'', [], ''# ok'']"
    by (simp add: exclusive_runner_def TestRunner_run_def add_def new_TestRunner_def
        new_Test_def Let_def Test_run_def Test_ok_def msg_required_def msg_given_def
        msg_or_def Test_assert_def nextId_def emit_def string_of_nat_digit digit_char_def)
  from exclusive_tests_only [OF h] e h l show ?thesis
    by (simp add: split_def)
qed


text \<open>
  C5 (as amended).  In the diagnostic block of a failing assertion that is reported (the
  test is not done and the plan is not exceeded), the lines after the result line,
  \<open>---\<close> and the operator are the serialized expected and actual values: in block style
  (\<open>|-\<close>, then the value with every line break followed by six spaces) exactly when the
  longer of the two serialized strings has more than 65 characters, and inline on the
  \<open>expected:\<close> and \<open>actual:\<close> lines otherwise.  The actual value of an error object is
  its message.
\<close>

theorem diagnostic_block_style:
  assumes "\<not> done' t" and "\<forall>p. planned t = Some p \<longrightarrow> actual_count t + 1 \<le> p"
    and "Test_assert False a e d op cs t (Some r) = (out, t', ro')"
    and "ex = toJSON e"
    and "ac = toJSON (if truthy a \<and> OBJ_TO_STRING a = ''[object Error]''
                      then get a ''message'' else a)"
  shows "\<exists>r' rest. ro' = Some r'
    \<and> report r' = report r
        @ [''not ok '' @ string_of_nat (id_counter r + 1) @ '' '' @ d,
           ''  ---'', ''    operator: '' @ op]
        @ (if 65 < max (length ex) (length ac)
           then [''    expected: |-'' @ [newline] @ ''      '' @ indent_newlines ex,
                 ''    actual:   |-'' @ [newline] @ ''      '' @ indent_newlines ac]
           else [''    expected: '' @ ex, ''    actual:   '' @ ac])
        @ rest"
  using Test_assert_failure_lines [OF assms(1-3)]
  unfolding value_lines_def shown_actual_def assms(4,5) .

theorem diagnostic_block_style_witness:
  "map_option (\<lambda>r'. take 5 (report r'))
     (snd (snd (Test_assert False (Str ''a'') (Str (forty_b @ forty_b))
                  ''should be equal'' ''equal'' site0
                  (new_Test ''t'' [] (Some new_TestRunner)) (Some new_TestRunner))))
   = Some [''not ok 1 should be equal'', ''  ---'', ''    operator: equal'',
           ''    expected: |-'' @ [newline] @ ''      '' @ [dquote] @ forty_b @ forty_b @ [dquote],
           ''    actual:   |-'' @ [newline] @ ''      '' @ [dquote] @ ''a'' @ [dquote]]"
proof -
  obtain out t' ro' where c: "Test_assert False (Str ''a'') (Str (forty_b @ forty_b))
                  ''should be equal'' ''equal'' site0
                  (new_Test ''t'' [] (Some new_TestRunner)) (Some new_TestRunner) = (out, t', ro')"
    by (cases "Test_assert False (Str ''a'') (Str (forty_b @ forty_b))
                  ''should be equal'' ''equal'' site0
                  (new_Test ''t'' [] (Some new_TestRunner)) (Some new_TestRunner)") auto
  have n: "\<not> done' (new_Test ''t'' [] (Some new_TestRunner))"
    and p: "\<forall>p. planned (new_Test ''t'' [] (Some new_TestRunner)) = Some p
          \<longrightarrow> actual_count (new_Test ''t'' [] (Some new_TestRunner)) + 1 \<le> p"
    by (simp_all add: new_Test_def)
  have ex: "toJSON (Str (forty_b @ forty_b)) = [dquote] @ forty_b @ forty_b @ [dquote]"
    by code_simp
  have ac: "toJSON (Str ''a'') = [dquote] @ ''a'' @ [dquote]"
    by code_simp
  have ac': "toJSON (if truthy (Str ''a'') \<and> OBJ_TO_STRING (Str ''a'') = ''[object Error]''
                      then get (Str ''a'') ''message'' else Str ''a'') = [dquote] @ ''a'' @ [dquote]"
    using ac by (simp add: OBJ_TO_STRING_def)
  have i: "indent_newlines ([dquote] @ forty_b @ forty_b @ [dquote])
        = [dquote] @ forty_b @ forty_b @ [dquote]"
    "indent_newlines ([dquote] @ ''a'' @ [dquote]) = [dquote] @ ''a'' @ [dquote]"
    by code_simp+
  have l: "65 < max (length ([dquote] @ forty_b @ forty_b @ [dquote]))
                   (length ([dquote] @ ''a'' @ [dquote]))"
    by (simp add: forty_b_def)
  from diagnostic_block_style [OF n p c ex [symmetric] ac' [symmetric]]
  show ?thesis
    unfolding c i if_P [OF l]
    by (auto simp: new_TestRunner_def string_of_nat_digit digit_char_def)
qed

text \<open>
  C5 as stated fails: the test is on the longer of the two strings, not on their combined
  length.  For \<open>equal\<close> on two strings of 40 characters that differ, the serialized values
  have 42 characters each, 84 together, and both are written inline.
\<close>

theorem diagnostic_block_not_combined_length:
  "65 < length (toJSON (Str forty_b)) + length (toJSON (Str forty_a))
   \<and> map_option (\<lambda>r'. take 5 (report r'))
       (snd (snd (Test_equal False (Str forty_a) (Str forty_b) None site0
                    (new_Test ''t'' [] (Some new_TestRunner)) (Some new_TestRunner))))
     = Some [''not ok 1 should be equal'', ''  ---'', ''    operator: equal'',
             ''    expected: '' @ [dquote] @ forty_b @ [dquote],
             ''    actual:   '' @ [dquote] @ forty_a @ [dquote]]"
  by code_simp

text \<open>
  C6 (as amended).  A call \<open>t.throws(fn, expected)\<close> whose \<open>expected\<close> is not a string,
  is truthy and is not a regular expression throws: the unsupported-usage error naming
  \<open>typeof expected\<close>, or, in strict mode without a message, the error that a message
  is required.  The test and the runner are as before the call: no assertion is recorded.
\<close>

theorem throws_unsupported_expected:
  assumes "typeof x \<noteq> ''string''" and "truthy x" and "\<not> instanceof_RegExp x"
  shows "Test_throws fn_result matches x msg cs t ro
    = (Thrown (if msg_required t msg then MsgRequired
               else ThrowsNotImplemented (typeof x)), t, ro)"
  using assms by (cases x) (simp_all add: Test_throws_def)

theorem throws_unsupported_expected_witness:
  "typeof (Num (Finite 5)) \<noteq> ''string'' \<and> truthy (Num (Finite 5))
   \<and> \<not> instanceof_RegExp (Num (Finite 5))
   \<and> Test_throws (Some sample_error) False (Num (Finite 5)) None site0
        (new_Test ''t'' [] (Some new_TestRunner)) (Some new_TestRunner)
     = (Thrown (ThrowsNotImplemented ''number''), new_Test ''t'' [] (Some new_TestRunner),
        Some new_TestRunner)"
proof -
  have h: "typeof (Num (Finite 5)) \<noteq> ''string''" "truthy (Num (Finite 5))"
    "\<not> instanceof_RegExp (Num (Finite 5))"
    by (simp_all add: instanceof_RegExp_def)
  have "\<not> msg_required (new_Test ''t'' [] (Some new_TestRunner)) None"
    by (simp add: msg_required_def new_Test_def new_TestRunner_def)
  with throws_unsupported_expected [OF h, of "Some sample_error" False None site0
      "new_Test ''t'' [] (Some new_TestRunner)" "Some new_TestRunner"] h
  show ?thesis by simp
qed

text \<open>
  C6 as stated fails: a string in the place of \<open>expected\<close> is present and is no regular
  expression, and the call does not throw.  The string is taken as the message:
  \<open>t.throws(fn, 'boom')\<close> on a function that throws records the passing assertion
  \<open>ok 1 boom\<close>.
\<close>

theorem throws_string_expected_is_message:
  "fst (Test_throws (Some sample_error) False (Str ''boom'') None site0
          (new_Test ''t'' [] (Some new_TestRunner)) (Some new_TestRunner)) = Returned ()
   \<and> map_option report
       (snd (snd (Test_throws (Some sample_error) False (Str ''boom'') None site0
                    (new_Test ''t'' [] (Some new_TestRunner)) (Some new_TestRunner))))
     = Some [''ok 1 boom'']"
  by code_simp

text \<open>
  C7 (as amended).  The actual assertion count of a new test is unset.  An assertion call
  made while a plan is declared, if it returns, leaves the count one higher than before
  (one, if it was unset).  An assertion call made while no plan is declared leaves the
  count as it was, whatever the outcome of the call.
\<close>

theorem actual_counts_under_plan:
  "actual (new_Test nm f runner) = None
   \<and> (Test_assertion a msg cs t ro = (out, t', ro') \<longrightarrow>
        (planned t = None \<longrightarrow> actual t' = actual t)
        \<and> (planned t \<noteq> None \<and> out = Returned () \<longrightarrow> actual t' = Some (actual_count t + 1)))"
proof (intro conjI impI)
  show "actual (new_Test nm f runner) = None" by (simp add: new_Test_def)
next
  assume "Test_assertion a msg cs t ro = (out, t', ro')" and "planned t = None"
  then show "actual t' = actual t" by (rule Test_assertion_actual(2))
next
  assume c: "Test_assertion a msg cs t ro = (out, t', ro')"
    and "planned t \<noteq> None \<and> out = Returned ()"
  then obtain p where "planned t = Some p" and "out = Returned ()" by auto
  with c show "actual t' = Some (actual_count t + 1)"
    by (simp add: Test_assertion_actual(3))
qed

theorem actual_counts_under_plan_witness:
  "Test_assertion (Ok (Bool True)) None site0
     ((new_Test ''t'' [] (Some new_TestRunner))\<lparr>planned := Some 3\<rparr>) (Some new_TestRunner)
   = (Returned (),
      (new_Test ''t'' [] (Some new_TestRunner))
        \<lparr>planned := Some 3, actual := Some 1, result := \<lparr>pass = 1, fail = 0\<rparr>\<rparr>,
      Some (new_TestRunner\<lparr>report := [''ok 1 should be truthy''], id_counter := 1\<rparr>))
   \<and> planned ((new_Test ''t'' [] (Some new_TestRunner))\<lparr>planned := Some 3\<rparr>) \<noteq> None
   \<and> actual ((new_Test ''t'' [] (Some new_TestRunner))
        \<lparr>planned := Some 3, actual := Some 1, result := \<lparr>pass = 1, fail = 0\<rparr>\<rparr>)
     = Some (actual_count ((new_Test ''t'' [] (Some new_TestRunner))\<lparr>planned := Some 3\<rparr>) + 1)"
proof -
  have c: "Test_assertion (Ok (Bool True)) None site0
     ((new_Test ''t'' [] (Some new_TestRunner))\<lparr>planned := Some 3\<rparr>) (Some new_TestRunner)
   = (Returned (),
      (new_Test ''t'' [] (Some new_TestRunner))
        \<lparr>planned := Some 3, actual := Some 1, result := \<lparr>pass = 1, fail = 0\<rparr>\<rparr>,
      Some (new_TestRunner\<lparr>report := [''ok 1 should be truthy''], id_counter := 1\<rparr>))"
    by (simp add: new_TestRunner_def new_Test_def Let_def
      Test_ok_def msg_required_def msg_given_def msg_or_def Test_assert_def
      actual_count_def nextId_def emit_def string_of_nat_digit digit_char_def)
  have p: "planned ((new_Test ''t'' [] (Some new_TestRunner))\<lparr>planned := Some 3\<rparr>) \<noteq> None"
    by simp
  from actual_counts_under_plan [of "''t''" "[]" "Some new_TestRunner" "Ok (Bool True)" None
      site0 "(new_Test ''t'' [] (Some new_TestRunner))\<lparr>planned := Some 3\<rparr>"
      "Some new_TestRunner" "Returned ()" _ _] c p
  show ?thesis by blast
qed

text \<open>
  C7 as stated fails: without a plan the count is not incremented.  On a new test with no
  plan, \<open>ok(true)\<close> returns and the count is still unset.
\<close>

theorem actual_not_counted_without_plan:
  "fst (Test_assertion (Ok (Bool True)) None site0
          (new_Test ''t'' [] (Some new_TestRunner)) (Some new_TestRunner)) = Returned ()
   \<and> actual (fst (snd (Test_assertion (Ok (Bool True)) None site0
          (new_Test ''t'' [] (Some new_TestRunner)) (Some new_TestRunner)))) = None"
  by code_simp

text \<open>
  C8.  If the test function completes and, at that point, a plan \<open>n\<close> is declared while
  the function made fewer than \<open>n\<close> assertion calls (the count being at most the number
  of calls), \<open>Test.run\<close> throws \<open>Test ended before the planned number\<close> with the planned
  and the actual count, in a state where the test is marked done.
\<close>

theorem ended_before_planned:
  assumes "exec_fn (fn t) t (map_option (emit (''# '' @ name t)) ro) = (Returned (), t1, ro1)"
    and "planned t1 = Some n"
    and "actual_count t + int (assertion_calls (fn t)) < n"
  shows "Test_run t ro
      = (Thrown (EndedBeforePlanned n (actual_count t1)), t1\<lparr>done' := True\<rparr>, ro1)
    \<and> done' (fst (snd (Test_run t ro)))"
  using Test_run_under_plan [OF assms] by simp


theorem ended_before_planned_witness:
  "exec_fn (fn underplanned_test) underplanned_test
     (map_option (emit (''# '' @ name underplanned_test)) (Some new_TestRunner))
   = (Returned (),
      underplanned_test\<lparr>planned := Some 2, actual := Some 1,
                          result := \<lparr>pass = 1, fail = 0\<rparr>\<rparr>,
      Some (new_TestRunner\<lparr>report := [''# t'', ''ok 1 should be truthy''], id_counter := 1\<rparr>))
   \<and> actual_count underplanned_test + int (assertion_calls (fn underplanned_test)) < 2
   \<and> Test_run underplanned_test (Some new_TestRunner)
     = (Thrown (EndedBeforePlanned 2 1),
        underplanned_test\<lparr>planned := Some 2, actual := Some 1,
                            result := \<lparr>pass = 1, fail = 0\<rparr>, done' := True\<rparr>,
        Some (new_TestRunner\<lparr>report := [''# t'', ''ok 1 should be truthy''], id_counter := 1\<rparr>))"
proof -
  have e: "exec_fn (fn underplanned_test) underplanned_test
     (map_option (emit (''# '' @ name underplanned_test)) (Some new_TestRunner))
   = (Returned (),
      underplanned_test\<lparr>planned := Some 2, actual := Some 1,
                          result := \<lparr>pass = 1, fail = 0\<rparr>\<rparr>,
      Some (new_TestRunner\<lparr>report := [''# t'', ''ok 1 should be truthy''], id_counter := 1\<rparr>))"
    by (simp add: underplanned_test_def new_TestRunner_def new_Test_def Let_def
      Test_plan_def Test_ok_def msg_required_def msg_given_def msg_or_def Test_assert_def
      actual_count_def nextId_def emit_def string_of_nat_digit digit_char_def)
  have p: "planned (underplanned_test\<lparr>planned := Some 2, actual := Some 1,
                          result := \<lparr>pass = 1, fail = 0\<rparr>\<rparr>) = Some 2"
    by simp
  have c: "actual_count underplanned_test + int (assertion_calls (fn underplanned_test)) < 2"
    by (simp add: underplanned_test_def new_Test_def actual_count_def assertion_calls_def)
  from ended_before_planned [OF e p c] e c show ?thesis
    by (simp add: actual_count_def)
qed

section \<open>The claims about the serializer\<close>

text \<open>
  C9.  The serializer of the formatter renders the absence marker as the bare token
  \<open>undefined\<close>: as the whole value; as the value of the field of an object, whatever the
  key \<open>k\<close> (the object is rendered as an opening brace, the indented quoted key with its
  colon, a space, \<open>undefined\<close>, and the closing brace on its own line); and as the
  element of an array.  At any depth the absence marker is serialized as the quoted
  sentinel, and the quoted sentinel after a space (where every field value and every
  array element is written) is replaced by \<open>undefined\<close>, whatever surrounds it.
\<close>

theorem toJSON_renders_undefined:
  "toJSON Undefined = ''undefined''
   \<and> toJSON (Obj r Ordinary pc vo ts es [(k, Undefined, True)])
     = ''{'' @ [newline] @ ''  '' @ replace_sentinel (QuoteJSONString k @ '':'')
       @ '' undefined'' @ [newline] @ ''}''
   \<and> toJSON (Obj r' Array pc' vo' ts' [Undefined] ps')
     = ''['' @ [newline] @ ''  undefined'' @ [newline] @ '']''
   \<and> SerializeJSONProperty ind Undefined = Some quoted_sentinel
   \<and> replace_sentinel (xs @ '' '' @ quoted_sentinel @ ys)
     = replace_sentinel xs @ '' undefined'' @ replace_sentinel ys"
  using toJSON_Undefined toJSON_undefined_field [of r pc vo ts es k]
    toJSON_undefined_elem [of r' pc' vo' ts' ps'] serialize_Undefined [of ind]
    replace_sentinel_after_space [of xs ys]
  by blast

theorem toJSON_renders_undefined_witness:
  "toJSON (Obj 1 Ordinary Object_ctor None None [] [(''a'', Undefined, True)])
   = ''{'' @ [newline] @ ''  '' @ [dquote] @ ''a'' @ [dquote] @ '': undefined''
     @ [newline] @ ''}''"
proof -
  have "replace_sentinel (QuoteJSONString ''a'' @ '':'') = [dquote] @ ''a'' @ [dquote] @ '':''"
    by code_simp
  with toJSON_renders_undefined [of 1 Object_ctor None None "[]" "''a''"]
  show ?thesis by simp
qed

text \<open>
  C10.  The substitution is not injective: the string \<open>_tz_undefined_tz_\<close> is not the
  absence marker, and the serializer renders it as the bare token \<open>undefined\<close>, the
  rendering of the absence marker; as the value of a field, whatever the key, it is
  rendered exactly as the absence marker in that field is; and at any depth the two have
  the same serialization.
\<close>

theorem sentinel_not_injective:
  "Str ''_tz_undefined_tz_'' \<noteq> Undefined
   \<and> toJSON (Str ''_tz_undefined_tz_'') = ''undefined''
   \<and> toJSON Undefined = ''undefined''
   \<and> toJSON (Obj r Ordinary pc vo ts es [(k, Str ''_tz_undefined_tz_'', True)])
     = toJSON (Obj r Ordinary pc vo ts es [(k, Undefined, True)])
   \<and> SerializeJSONProperty ind (Str ''_tz_undefined_tz_'')
     = SerializeJSONProperty ind Undefined"
  using toJSON_sentinel toJSON_Undefined toJSON_sentinel_field [of r pc vo ts es k]
    serialize_sentinel [of ind] serialize_Undefined [of ind]
  by (simp add: sentinel_def)

end
